theory Spec2Isabelle
  imports Complex_Main
begin

section \<open>Numbers\<close>

text \<open>
  The values the metric code computes with are JavaScript numbers, that is IEEE 754
  doubles. A finite double is \<open>Fin q\<close> with \<open>q\<close> its value, a rational; the infinities
  are \<open>PInf\<close> and \<open>NInf\<close>, and \<open>NaN\<close> is not-a-number. The two zeros are
  identified: \<open>getRatio\<close> tests its divisor against zero before it divides, so the sign
  of a zero never decides a result below.
\<close>

datatype jsnum = Fin rat | PInf | NInf | NaN

text \<open>Strict equality \<open>===\<close> on numbers: \<open>NaN\<close> equals nothing, itself included.\<close>

fun js_seq :: "jsnum \<Rightarrow> jsnum \<Rightarrow> bool" where
  "js_seq NaN b = False"
| "js_seq a NaN = False"
| "js_seq a b = (a = b)"

text \<open>
  The quotient and the sum of two finite doubles are rounded to a double, and are
  infinite on overflow. The rounding is not modelled: the two operations on finite
  operands are parameters of the model, \<open>float_div\<close> for a divisor other than zero and
  \<open>float_add\<close>, and every function that computes takes them.
\<close>

record float_arith =
  float_div :: "rat \<Rightarrow> rat \<Rightarrow> jsnum"
  float_add :: "rat \<Rightarrow> rat \<Rightarrow> jsnum"

text \<open>Addition \<open>+\<close> on numbers.\<close>

fun js_add :: "float_arith \<Rightarrow> jsnum \<Rightarrow> jsnum \<Rightarrow> jsnum" where
  "js_add ar NaN b = NaN"
| "js_add ar a NaN = NaN"
| "js_add ar PInf NInf = NaN"
| "js_add ar NInf PInf = NaN"
| "js_add ar PInf b = PInf"
| "js_add ar a PInf = PInf"
| "js_add ar NInf b = NInf"
| "js_add ar a NInf = NInf"
| "js_add ar (Fin x) (Fin y) = float_add ar x y"

text \<open>
  Division \<open>/\<close> on numbers. A zero divisor is read as the positive zero; \<open>getRatio\<close>
  never divides by zero.
\<close>

fun js_div :: "float_arith \<Rightarrow> jsnum \<Rightarrow> jsnum \<Rightarrow> jsnum" where
  "js_div ar NaN b = NaN"
| "js_div ar a NaN = NaN"
| "js_div ar (Fin x) (Fin y) =
     (if y = 0 then (if x = 0 then NaN else if 0 < x then PInf else NInf)
      else float_div ar x y)"
| "js_div ar (Fin x) PInf = Fin 0"
| "js_div ar (Fin x) NInf = Fin 0"
| "js_div ar PInf (Fin y) = (if y < 0 then NInf else PInf)"
| "js_div ar NInf (Fin y) = (if y < 0 then PInf else NInf)"
| "js_div ar PInf b = NaN"
| "js_div ar NInf b = NaN"

text \<open>The order \<open><=\<close> on numbers; every comparison with \<open>NaN\<close> is false.\<close>

fun js_le :: "jsnum \<Rightarrow> jsnum \<Rightarrow> bool" where
  "js_le NaN b = False"
| "js_le a NaN = False"
| "js_le NInf b = True"
| "js_le a PInf = True"
| "js_le (Fin x) (Fin y) = (x \<le> y)"
| "js_le a b = False"

text \<open>
  \<open>Math.min\<close> and \<open>Math.max\<close> of two numbers: \<open>NaN\<close> when either argument is
  \<open>NaN\<close>, else the smaller (the larger) one.
\<close>

definition Math_min :: "jsnum \<Rightarrow> jsnum \<Rightarrow> jsnum" where
  "Math_min a b = (if a = NaN \<or> b = NaN then NaN else if js_le a b then a else b)"

definition Math_max :: "jsnum \<Rightarrow> jsnum \<Rightarrow> jsnum" where
  "Math_max a b = (if a = NaN \<or> b = NaN then NaN else if js_le a b then b else a)"

section \<open>Ratios\<close>

text \<open>
  \<^verbatim>\<open>export function getRatio(a: number, b: number) {
    return b === 0 ? (a === 0 ? 1 : Infinity) : a / b;
  }\<close>
\<close>

definition getRatio :: "float_arith \<Rightarrow> jsnum \<Rightarrow> jsnum \<Rightarrow> jsnum" where
  "getRatio ar a b =
     (if js_seq b (Fin 0) then (if js_seq a (Fin 0) then Fin 1 else PInf) else js_div ar a b)"

text \<open>
  The finite doubles are the integers of magnitude below \<open>2^53\<close> times a power of two
  from \<open>2^-1074\<close> to \<open>2^971\<close>. Double division is correctly rounded, so it returns
  the quotient itself whenever the quotient is a double.
\<close>

definition is_double :: "rat \<Rightarrow> bool" where
  "is_double q =
     (\<exists>m e :: int. \<bar>m\<bar> < 2 ^ 53 \<and> - 1074 \<le> e \<and> e \<le> 971 \<and> q = of_int m * 2 powi e)"

definition exact_quotients :: "float_arith \<Rightarrow> bool" where
  "exact_quotients ar =
     (\<forall>x y. y \<noteq> 0 \<and> is_double (x / y) \<longrightarrow> float_div ar x y = Fin (x / y))"

section \<open>Fields, batches and metrics\<close>

text \<open>
  The enumeration \<open>FieldId\<close> is declared in \<open>entry.ts\<close>. The metric code names seven
  of its members; \<open>OTHER_ID\<close> stands for every other member.
\<close>

datatype FieldId =
  WIDTH | HEIGHT | EFFORT | QUALITY | ENCODED_SIZE | ENCODING_DURATION | DECODING_DURATION
  | OTHER_ID nat

text \<open>
  A \<open>Field\<close> describes one column and a \<open>Batch\<close> is one table. Only the members that
  the code below reads are kept. The member \<open>id\<close> of a field is called \<open>id_field\<close>
  here, and the member \<open>fields\<close> of a batch \<open>fields_batch\<close>. The cells that
  \<open>computeStats\<close> reads are cast to numbers by the source
  (\<open>as number\<close>), so a row is a list of numbers.
\<close>

record Field =
  id_field :: FieldId
  isNumber :: bool
  rangeStart :: jsnum
  rangeEnd :: jsnum
  uniqueValuesArray :: "string list"

record Batch =
  index :: nat
  fields_batch :: "Field list"
  rows :: "jsnum list list"

text \<open>
  \<^verbatim>\<open>export class FieldMetric {
    enabled = false;
    constructor(public fieldIndices: number[]) {}
  }\<close>
\<close>

record FieldMetric =
  enabled :: bool
  fieldIndices :: "nat list"

definition new_FieldMetric :: "nat list \<Rightarrow> FieldMetric" where
  "new_FieldMetric is = \<lparr>enabled = False, fieldIndices = is\<rparr>"

text \<open>
  Metrics are objects: \<open>enableDefaultMetrics\<close> writes to them in place and
  \<open>selectPlotMetrics\<close> compares them by identity. A metric is therefore held in a
  store and a list of metrics is a list of references into it.
\<close>

type_synonym ref = nat
type_synonym store = "ref \<Rightarrow> FieldMetric"

text \<open>Reading a member of \<open>undefined\<close> throws a \<open>TypeError\<close>.\<close>

datatype error = TypeError

subsection \<open>createMetrics\<close>

text \<open>\<open>Array.prototype.findIndex\<close>, with \<open>None\<close> for the result \<open>-1\<close>.\<close>

fun findIndex :: "('a \<Rightarrow> bool) \<Rightarrow> 'a list \<Rightarrow> nat option" where
  "findIndex p [] = None"
| "findIndex p (x # xs) =
     (if p x then Some 0 else map_option Suc (findIndex p xs))"

text \<open>
  The inner loop of \<open>createMetrics\<close> over the batches after the first. It carries the
  indices pushed so far (\<open>fieldIndices\<close>, here \<open>indices\<close>) and the flag
  \<open>isNumber\<close>, and stops at the first batch that has no comparable field. The function \<open>areFieldsComparable\<close> of \<open>entry.ts\<close> is the
  parameter \<open>cmp\<close>.
\<close>

fun otherBatches ::
  "(Field \<Rightarrow> Field \<Rightarrow> bool) \<Rightarrow> Field \<Rightarrow> Batch list \<Rightarrow> nat list \<Rightarrow> bool \<Rightarrow> nat list \<times> bool"
where
  "otherBatches cmp field [] indices isNum = (indices, isNum)"
| "otherBatches cmp field (otherBatch # bs) indices isNum =
     (case findIndex (\<lambda>otherField. cmp field otherField) (fields_batch otherBatch) of
        None \<Rightarrow> (indices, isNum)
      | Some otherFieldIndex \<Rightarrow>
          otherBatches cmp field bs (indices @ [otherFieldIndex])
            (isNum \<and> isNumber (fields_batch otherBatch ! otherFieldIndex)))"

text \<open>
  The outer loop over the entries \<open>(fieldIndex, field)\<close> of the first batch, with the
  four \<open>continue\<close> tests in the order of the source.
\<close>

fun firstBatchFields ::
  "(Field \<Rightarrow> Field \<Rightarrow> bool) \<Rightarrow> Batch list \<Rightarrow> (nat \<times> Field) list \<Rightarrow> FieldMetric list
   \<Rightarrow> FieldMetric list"
where
  "firstBatchFields cmp batches [] metrics = metrics"
| "firstBatchFields cmp batches ((fieldIndex, field) # es) metrics =
     (let (indices, isNum) =
            otherBatches cmp field (tl batches) [fieldIndex] (isNumber field)
      in if length indices \<noteq> length batches then firstBatchFields cmp batches es metrics
         else if \<not> isNum then firstBatchFields cmp batches es metrics
         else if id_field field = WIDTH \<or> id_field field = HEIGHT
           then firstBatchFields cmp batches es metrics
         else if id_field field = EFFORT \<or> id_field field = QUALITY
           then firstBatchFields cmp batches es metrics
         else firstBatchFields cmp batches es (metrics @ [new_FieldMetric indices]))"

definition createMetrics :: "(Field \<Rightarrow> Field \<Rightarrow> bool) \<Rightarrow> Batch list \<Rightarrow> FieldMetric list" where
  "createMetrics cmp batches =
     (if length batches = 0 then []
      else firstBatchFields cmp batches (enumerate 0 (fields_batch (hd batches))) [])"

text \<open>
  Modelled from the spec: the function \<open>areFieldsComparable\<close> of \<open>entry.ts\<close>, which is
  not among the sources. The specification compares fields "by identity id and
  numeric-ness, not by observed range or value set".
\<close>

definition areFieldsComparable :: "Field \<Rightarrow> Field \<Rightarrow> bool" where
  "areFieldsComparable a b = (id_field a = id_field b \<and> isNumber a = isNumber b)"

subsection \<open>enableDefaultMetrics\<close>

text \<open>
  The expression \<open>firstBatch.fields[metric.fieldIndices[0]]\<close>: \<open>undefined\<close>, here
  \<open>None\<close>, when the metric has no index or the index is past the fields.
\<close>

definition metricField :: "Batch \<Rightarrow> FieldMetric \<Rightarrow> Field option" where
  "metricField firstBatch metric =
     (case fieldIndices metric of
        [] \<Rightarrow> None
      | k # _ \<Rightarrow> if k < length (fields_batch firstBatch) then Some (fields_batch firstBatch ! k) else None)"

text \<open>
  The loop of \<open>enableDefaultMetrics\<close> over the references \<open>metrics\<close>. The result is the
  store as the call leaves it, together with the error when \<open>field.id\<close> threw: the
  writes made before a throw stay.
\<close>

fun enableDefaultMetrics :: "Batch \<Rightarrow> ref list \<Rightarrow> store \<Rightarrow> error option \<times> store" where
  "enableDefaultMetrics firstBatch [] h = (None, h)"
| "enableDefaultMetrics firstBatch (r # rs) h =
     (case metricField firstBatch (h r) of
        None \<Rightarrow> (Some TypeError, h)
      | Some field \<Rightarrow>
          if id_field field = ENCODED_SIZE \<or> id_field field = ENCODING_DURATION
             \<or> id_field field = DECODING_DURATION
          then enableDefaultMetrics firstBatch rs (h(r := (h r)\<lparr>enabled := True\<rparr>))
          else enableDefaultMetrics firstBatch rs h)"

subsection \<open>selectPlotMetrics\<close>

text \<open>The closure \<open>metricToFieldId\<close>.\<close>

definition metricToFieldId :: "Batch \<Rightarrow> FieldMetric \<Rightarrow> error + FieldId" where
  "metricToFieldId firstBatch metric =
     (case metricField firstBatch metric of
        None \<Rightarrow> Inl TypeError
      | Some field \<Rightarrow> Inr (id_field field))"

text \<open>
  The predicate \<open>m => m.enabled && metricToFieldId(m) === fid\<close>: the right operand is
  evaluated, and can throw, only for an enabled metric.
\<close>

definition enabledWithId :: "Batch \<Rightarrow> store \<Rightarrow> FieldId \<Rightarrow> ref \<Rightarrow> error + bool" where
  "enabledWithId firstBatch h fid m =
     (if enabled (h m)
      then (case metricToFieldId firstBatch (h m) of
              Inl e \<Rightarrow> Inl e
            | Inr i \<Rightarrow> Inr (i = fid))
      else Inr False)"

text \<open>\<open>Array.prototype.find\<close> with a predicate that can throw.\<close>

fun find_throwing :: "('a \<Rightarrow> error + bool) \<Rightarrow> 'a list \<Rightarrow> error + 'a option" where
  "find_throwing p [] = Inr None"
| "find_throwing p (x # xs) =
     (case p x of
        Inl e \<Rightarrow> Inl e
      | Inr found \<Rightarrow> if found then Inr (Some x) else find_throwing p xs)"

text \<open>
  The second half of \<open>selectPlotMetrics\<close>, from the comment "Try the first two enabled
  metrics" on: nothing in it can throw.
\<close>

definition selectFallback :: "store \<Rightarrow> ref list \<Rightarrow> ref option \<times> ref option" where
  "selectFallback h metrics =
     (let xMetric = find (\<lambda>m. enabled (h m)) metrics;
          yMetric = find (\<lambda>m. enabled (h m) \<and> Some m \<noteq> xMetric) metrics
      in if xMetric \<noteq> None
         then (xMetric, case yMetric of None \<Rightarrow> xMetric | Some y \<Rightarrow> Some y)
         else if length metrics > 0 then (Some (metrics ! 0), Some (metrics ! 0))
         else (None, None))"

definition selectPlotMetrics ::
  "Batch \<Rightarrow> store \<Rightarrow> ref list \<Rightarrow> error + (ref option \<times> ref option)"
where
  "selectPlotMetrics firstBatch h metrics =
     (case find_throwing (enabledWithId firstBatch h ENCODED_SIZE) metrics of
        Inl e \<Rightarrow> Inl e
      | Inr xMetric \<Rightarrow>
     (case find_throwing (enabledWithId firstBatch h ENCODING_DURATION) metrics of
        Inl e \<Rightarrow> Inl e
      | Inr yMetric0 \<Rightarrow>
     (case (if yMetric0 = None
            then find_throwing (enabledWithId firstBatch h DECODING_DURATION) metrics
            else Inr yMetric0) of
        Inl e \<Rightarrow> Inl e
      | Inr yMetric \<Rightarrow>
          if xMetric \<noteq> None \<and> yMetric \<noteq> None then Inr (xMetric, yMetric)
          else Inr (selectFallback h metrics))))"

section \<open>Statistics\<close>

text \<open>
  \<^verbatim>\<open>export class FieldMetricStats {
    geometricMean = 1;
    minRatio = 1;
    maxRatio = 1;
    arithmeticMean = 1;
  }\<close>
\<close>

record FieldMetricStats =
  geometricMean :: jsnum
  minRatio :: jsnum
  maxRatio :: jsnum
  arithmeticMean :: jsnum

definition new_FieldMetricStats :: FieldMetricStats where
  "new_FieldMetricStats =
     \<lparr>geometricMean = Fin 1, minRatio = Fin 1, maxRatio = Fin 1, arithmeticMean = Fin 1\<rparr>"

record Match =
  leftIndex :: nat
  rightIndex :: nat

text \<open>
  The class \<open>GeometricMean\<close> of \<open>geometric_mean.ts\<close> is not among the sources.
  \<open>computeStats\<close> takes it as a parameter: the new accumulator and its methods
  \<open>add\<close> and \<open>get\<close>, over any type \<open>'g\<close> of accumulators.
\<close>

record 'g GeometricMean =
  gm_new :: 'g
  gm_add :: "'g \<Rightarrow> jsnum \<Rightarrow> 'g"
  gm_get :: "'g \<Rightarrow> jsnum"

text \<open>The variables of the loop over the data points of one metric.\<close>

record 'g loop_vars =
  fieldStats :: FieldMetricStats
  numDataPoints :: nat
  geometricMeanAcc :: 'g
  leftSum :: jsnum
  rightSum :: jsnum

text \<open>\<open>metric.fieldIndices[batch.index]\<close>: \<open>undefined\<close>, here \<open>None\<close>, past the end.\<close>

definition fieldIndexOf :: "FieldMetric \<Rightarrow> Batch \<Rightarrow> nat option" where
  "fieldIndexOf metric b =
     (if index b < length (fieldIndices metric) then Some (fieldIndices metric ! index b)
      else None)"

text \<open>\<open>batch.rows[i]\<close>: \<open>undefined\<close>, here \<open>None\<close>, past the end.\<close>

definition rowAt :: "Batch \<Rightarrow> nat \<Rightarrow> jsnum list option" where
  "rowAt b i = (if i < length (rows b) then Some (rows b ! i) else None)"

text \<open>
  \<open>row[fieldIndex] as number\<close>. A read past the end of the row, or at the index
  \<open>undefined\<close>, gives \<open>undefined\<close>; the comparison with zero, the division and the
  addition that follow treat \<open>undefined\<close> as they treat \<open>NaN\<close>, which stands for it.
\<close>

definition cellAt :: "jsnum list \<Rightarrow> nat option \<Rightarrow> jsnum" where
  "cellAt row fieldIndex =
     (case fieldIndex of
        None \<Rightarrow> NaN
      | Some j \<Rightarrow> if j < length row then row ! j else NaN)"

text \<open>
  \<open>leftValue\<close> and \<open>rightValue\<close> of one data point. Indexing the row \<open>undefined\<close>
  throws.
\<close>

definition dataPointValues ::
  "Batch \<Rightarrow> Batch \<Rightarrow> nat option \<Rightarrow> nat option \<Rightarrow> Match \<Rightarrow> error + (jsnum \<times> jsnum)"
where
  "dataPointValues leftBatch rightBatch leftFieldIndex rightFieldIndex dataPoint =
     (case rowAt leftBatch (leftIndex dataPoint) of
        None \<Rightarrow> Inl TypeError
      | Some leftRow \<Rightarrow>
     (case rowAt rightBatch (rightIndex dataPoint) of
        None \<Rightarrow> Inl TypeError
      | Some rightRow \<Rightarrow>
          Inr (cellAt leftRow leftFieldIndex, cellAt rightRow rightFieldIndex)))"

fun dataPointsLoop ::
  "float_arith \<Rightarrow> 'g GeometricMean \<Rightarrow> Batch \<Rightarrow> Batch \<Rightarrow> nat option \<Rightarrow> nat option \<Rightarrow> Match list
   \<Rightarrow> 'g loop_vars \<Rightarrow> error + 'g loop_vars"
where
  "dataPointsLoop ar gm leftBatch rightBatch leftFieldIndex rightFieldIndex [] v = Inr v"
| "dataPointsLoop ar gm leftBatch rightBatch leftFieldIndex rightFieldIndex (dataPoint # dps) v =
     (case dataPointValues leftBatch rightBatch leftFieldIndex rightFieldIndex dataPoint of
        Inl e \<Rightarrow> Inl e
      | Inr (leftValue, rightValue) \<Rightarrow>
          (let ratio = getRatio ar leftValue rightValue;
               fs = (if numDataPoints v = 0
                     then (fieldStats v)\<lparr>minRatio := ratio, maxRatio := ratio\<rparr>
                     else (fieldStats v)
                            \<lparr>minRatio := Math_min (minRatio (fieldStats v)) ratio,
                             maxRatio := Math_max (maxRatio (fieldStats v)) ratio\<rparr>)
           in dataPointsLoop ar gm leftBatch rightBatch leftFieldIndex rightFieldIndex dps
                (v\<lparr>fieldStats := fs,
                   geometricMeanAcc := gm_add gm (geometricMeanAcc v) ratio,
                   leftSum := js_add ar (leftSum v) leftValue,
                   rightSum := js_add ar (rightSum v) rightValue,
                   numDataPoints := Suc (numDataPoints v)\<rparr>)))"

text \<open>The body of the loop over the metrics: the statistics of one metric.\<close>

definition metricStats ::
  "float_arith \<Rightarrow> 'g GeometricMean \<Rightarrow> Batch \<Rightarrow> Batch \<Rightarrow> Match list \<Rightarrow> FieldMetric
   \<Rightarrow> error + FieldMetricStats"
where
  "metricStats ar gm leftBatch rightBatch dataPoints metric =
     (let leftFieldIndex = fieldIndexOf metric leftBatch;
          rightFieldIndex = fieldIndexOf metric rightBatch
      in case dataPointsLoop ar gm leftBatch rightBatch leftFieldIndex rightFieldIndex dataPoints
                \<lparr>fieldStats = new_FieldMetricStats, numDataPoints = 0,
                 geometricMeanAcc = gm_new gm, leftSum = Fin 0, rightSum = Fin 0\<rparr> of
           Inl e \<Rightarrow> Inl e
         | Inr v \<Rightarrow>
             Inr (if numDataPoints v > 0
                  then (fieldStats v)
                         \<lparr>geometricMean := gm_get gm (geometricMeanAcc v),
                          arithmeticMean := getRatio ar (leftSum v) (rightSum v)\<rparr>
                  else fieldStats v))"

fun metricsLoop ::
  "float_arith \<Rightarrow> 'g GeometricMean \<Rightarrow> Batch \<Rightarrow> Batch \<Rightarrow> Match list \<Rightarrow> FieldMetric list
   \<Rightarrow> FieldMetricStats list \<Rightarrow> error + FieldMetricStats list"
where
  "metricsLoop ar gm leftBatch rightBatch dataPoints [] stats = Inr stats"
| "metricsLoop ar gm leftBatch rightBatch dataPoints (metric # ms) stats =
     (case metricStats ar gm leftBatch rightBatch dataPoints metric of
        Inl e \<Rightarrow> Inl e
      | Inr fs \<Rightarrow> metricsLoop ar gm leftBatch rightBatch dataPoints ms (stats @ [fs]))"

text \<open>
  \<open>computeStats\<close> only reads its metrics, so it takes them by value. It returns the
  statistics, or the error that indexing a missing row threw.
\<close>

definition computeStats ::
  "float_arith \<Rightarrow> 'g GeometricMean \<Rightarrow> Batch \<Rightarrow> Batch \<Rightarrow> Match list \<Rightarrow> FieldMetric list
   \<Rightarrow> error + FieldMetricStats list"
where
  "computeStats ar gm leftBatch rightBatch dataPoints metrics =
     metricsLoop ar gm leftBatch rightBatch dataPoints metrics []"

subsection \<open>What the statistics are stated over\<close>

text \<open>
  Every data point names a row of the left batch and a row of the right batch (the
  invariant of a \<open>Match\<close>).
\<close>

definition validDataPoints :: "Batch \<Rightarrow> Batch \<Rightarrow> Match list \<Rightarrow> bool" where
  "validDataPoints leftBatch rightBatch dataPoints =
     list_all (\<lambda>dp. leftIndex dp < length (rows leftBatch)
                    \<and> rightIndex dp < length (rows rightBatch)) dataPoints"

text \<open>
  The metric has an index for the left and for the right batch, and the matched rows
  have a cell at these indices (the invariant of a \<open>FieldMetric\<close>, whose indices are
  as many as the batches and name fields, with rows that are aligned with the fields).
\<close>

definition metricCells :: "Batch \<Rightarrow> Batch \<Rightarrow> FieldMetric \<Rightarrow> Match list \<Rightarrow> bool" where
  "metricCells leftBatch rightBatch metric dataPoints =
     (index leftBatch < length (fieldIndices metric)
      \<and> index rightBatch < length (fieldIndices metric)
      \<and> list_all
           (\<lambda>dp. fieldIndices metric ! index leftBatch < length (rows leftBatch ! leftIndex dp)
                 \<and> fieldIndices metric ! index rightBatch
                     < length (rows rightBatch ! rightIndex dp))
           dataPoints)"

text \<open>
  The field values of a metric over the data points, in the order of the data points:
  the value of the left row of a match is the cell of that row of the left batch at the
  index that the metric holds for the left batch, and likewise on the right. The ratios
  are \<open>getRatio\<close> of the left and the right value of each match.
\<close>

definition leftValues :: "Batch \<Rightarrow> FieldMetric \<Rightarrow> Match list \<Rightarrow> jsnum list" where
  "leftValues leftBatch metric dataPoints =
     map (\<lambda>dp. rows leftBatch ! leftIndex dp ! (fieldIndices metric ! index leftBatch))
       dataPoints"

definition rightValues :: "Batch \<Rightarrow> FieldMetric \<Rightarrow> Match list \<Rightarrow> jsnum list" where
  "rightValues rightBatch metric dataPoints =
     map (\<lambda>dp. rows rightBatch ! rightIndex dp ! (fieldIndices metric ! index rightBatch))
       dataPoints"

definition ratios ::
  "float_arith \<Rightarrow> Batch \<Rightarrow> Batch \<Rightarrow> FieldMetric \<Rightarrow> Match list \<Rightarrow> jsnum list"
where
  "ratios ar leftBatch rightBatch metric dataPoints =
     map (\<lambda>dp. getRatio ar
                 (rows leftBatch ! leftIndex dp ! (fieldIndices metric ! index leftBatch))
                 (rows rightBatch ! rightIndex dp ! (fieldIndices metric ! index rightBatch)))
       dataPoints"

text \<open>The sum of a list of numbers as the loop accumulates it, from 0 and left to right.\<close>

definition total :: "float_arith \<Rightarrow> jsnum list \<Rightarrow> jsnum" where
  "total ar xs = foldl (js_add ar) (Fin 0) xs"

text \<open>
  What the loop reads for a metric when the rows exist, whether or not the metric has
  the indices and the rows the cells: the values as \<open>cellAt\<close> gives them, their ratios,
  and the statistics that the loop leaves.
\<close>

definition readLeftValues :: "Batch \<Rightarrow> FieldMetric \<Rightarrow> Match list \<Rightarrow> jsnum list" where
  "readLeftValues leftBatch metric dataPoints =
     map (\<lambda>dp. cellAt (rows leftBatch ! leftIndex dp) (fieldIndexOf metric leftBatch)) dataPoints"

definition readRightValues :: "Batch \<Rightarrow> FieldMetric \<Rightarrow> Match list \<Rightarrow> jsnum list" where
  "readRightValues rightBatch metric dataPoints =
     map (\<lambda>dp. cellAt (rows rightBatch ! rightIndex dp) (fieldIndexOf metric rightBatch))
       dataPoints"

definition readRatios ::
  "float_arith \<Rightarrow> Batch \<Rightarrow> Batch \<Rightarrow> FieldMetric \<Rightarrow> Match list \<Rightarrow> jsnum list"
where
  "readRatios ar leftBatch rightBatch metric dataPoints =
     map (\<lambda>(a, b). getRatio ar a b)
       (zip (readLeftValues leftBatch metric dataPoints)
            (readRightValues rightBatch metric dataPoints))"

definition statsOf ::
  "float_arith \<Rightarrow> 'g GeometricMean \<Rightarrow> Batch \<Rightarrow> Batch \<Rightarrow> Match list \<Rightarrow> FieldMetric
   \<Rightarrow> FieldMetricStats"
where
  "statsOf ar gm lb rb dps m =
     (if dps = [] then new_FieldMetricStats
      else \<lparr>geometricMean =
              gm_get gm (foldl (gm_add gm) (gm_new gm) (readRatios ar lb rb m dps)),
            minRatio =
              foldl Math_min (hd (readRatios ar lb rb m dps)) (tl (readRatios ar lb rb m dps)),
            maxRatio =
              foldl Math_max (hd (readRatios ar lb rb m dps)) (tl (readRatios ar lb rb m dps)),
            arithmeticMean =
              getRatio ar (total ar (readLeftValues lb m dps))
                (total ar (readRightValues rb m dps))\<rparr>)"

subsection \<open>Example data\<close>

text \<open>
  Two batches with a width and an encoded-size column, in the one order on the left and
  in the other order on the right, and the metric on encoded size: column 1 of the left
  batch, whose index is 0, and column 0 of the right batch, whose index is 1.
\<close>

definition sizeField :: Field where
  "sizeField = \<lparr>id_field = ENCODED_SIZE, isNumber = True, rangeStart = Fin 0,
                 rangeEnd = Fin 5, uniqueValuesArray = []\<rparr>"

definition widthField :: Field where
  "widthField = \<lparr>id_field = WIDTH, isNumber = True, rangeStart = Fin 8,
                  rangeEnd = Fin 8, uniqueValuesArray = []\<rparr>"

definition leftExample :: Batch where
  "leftExample = \<lparr>index = 0, fields_batch = [widthField, sizeField],
                   rows = [[Fin 8, Fin 2], [Fin 8, Fin 1], [Fin 8, Fin 5]]\<rparr>"

definition rightExample :: Batch where
  "rightExample = \<lparr>index = 1, fields_batch = [sizeField, widthField],
                    rows = [[Fin 2, Fin 8], [Fin 1, Fin 8], [Fin 0, Fin 8]]\<rparr>"

definition sizeMetric :: FieldMetric where
  "sizeMetric = new_FieldMetric [1, 0]"

text \<open>
  The matches of the left rows 0 and 1 with the right rows 1 and 0: the left values are
  2 and 1, the right values 1 and 2.
\<close>

definition firstTwoMatches :: "Match list" where
  "firstTwoMatches = [\<lparr>leftIndex = 0, rightIndex = 1\<rparr>, \<lparr>leftIndex = 1, rightIndex = 0\<rparr>]"

text \<open>
  The matches of the left rows 2 and 1 with the right rows 2 and 0: the left values are
  5 and 1, the right values 0 and 2.
\<close>

definition lastTwoMatches :: "Match list" where
  "lastTwoMatches = [\<lparr>leftIndex = 2, rightIndex = 2\<rparr>, \<lparr>leftIndex = 1, rightIndex = 0\<rparr>]"

text \<open>
  The arithmetic of the examples returns the quotient and the sum themselves. On the
  operands of the examples double arithmetic does the same: every quotient and every sum
  that the examples compute is a double.
\<close>

definition exactArith :: float_arith where
  "exactArith = \<lparr>float_div = (\<lambda>x y. Fin (x / y)), float_add = (\<lambda>x y. Fin (x + y))\<rparr>"

text \<open>An accumulator that keeps nothing, for the examples that do not read the geometric mean.\<close>

definition unitMean :: "unit GeometricMean" where
  "unitMean = \<lparr>gm_new = (), gm_add = (\<lambda>g v. g), gm_get = (\<lambda>g. Fin 1)\<rparr>"

text \<open>The average of the ratios, which the arithmetic mean of the statistics is not.\<close>

definition meanOfRatios :: "float_arith \<Rightarrow> jsnum list \<Rightarrow> jsnum" where
  "meanOfRatios ar rs = js_div ar (total ar rs) (Fin (of_nat (length rs)))"

subsection \<open>What the selection of plot metrics is stated over\<close>

text \<open>
  The first index of every listed metric names a field of the first batch (the invariant
  that the constructor of \<open>FieldMetric\<close> documents).
\<close>

definition metricsOfBatch :: "Batch \<Rightarrow> store \<Rightarrow> ref list \<Rightarrow> bool" where
  "metricsOfBatch firstBatch h metrics =
     list_all (\<lambda>m. metricField firstBatch (h m) \<noteq> None) metrics"

text \<open>The first listed metric that is enabled and whose field of the first batch has the id.\<close>

definition firstEnabledWithId :: "Batch \<Rightarrow> store \<Rightarrow> FieldId \<Rightarrow> ref list \<Rightarrow> ref option" where
  "firstEnabledWithId firstBatch h fid metrics =
     (case filter (\<lambda>m. enabled (h m)
                       \<and> map_option id_field (metricField firstBatch (h m)) = Some fid) metrics of
        [] \<Rightarrow> None
      | m # _ \<Rightarrow> Some m)"

text \<open>
  The precedence of the specification, step by step: (1) the enabled encoded-size metric
  with the enabled encoding-duration metric, else the enabled decoding-duration metric,
  when both exist; (2) else the first enabled metric with the next enabled metric that is
  another one, or with itself when there is no other; (3) else the first metric for both
  axes; (4) else nothing.
\<close>

definition selectPlotMetrics_spec :: "Batch \<Rightarrow> store \<Rightarrow> ref list \<Rightarrow> ref option \<times> ref option" where
  "selectPlotMetrics_spec firstBatch h metrics =
     (let size = firstEnabledWithId firstBatch h ENCODED_SIZE metrics;
          duration =
            (case firstEnabledWithId firstBatch h ENCODING_DURATION metrics of
               Some e \<Rightarrow> Some e
             | None \<Rightarrow> firstEnabledWithId firstBatch h DECODING_DURATION metrics);
          enabledMetrics = filter (\<lambda>m. enabled (h m)) metrics
      in if size \<noteq> None \<and> duration \<noteq> None then (size, duration)
         else (case enabledMetrics of
                 x # _ \<Rightarrow>
                   (Some x,
                    case filter (\<lambda>m. m \<noteq> x) enabledMetrics of
                      [] \<Rightarrow> Some x
                    | y # _ \<Rightarrow> Some y)
               | [] \<Rightarrow>
                   (case metrics of
                      [] \<Rightarrow> (None, None)
                    | m # _ \<Rightarrow> (Some m, Some m))))"

text \<open>A batch with an encoded-size, an encoding-duration and a width column.\<close>

definition durationField :: Field where
  "durationField = \<lparr>id_field = ENCODING_DURATION, isNumber = True, rangeStart = Fin 0,
                     rangeEnd = Fin 9, uniqueValuesArray = []\<rparr>"

definition threeColumns :: Batch where
  "threeColumns = \<lparr>index = 0, fields_batch = [sizeField, durationField, widthField],
                    rows = []\<rparr>"

text \<open>
  A store whose metric at reference \<open>r\<close> is on column \<open>r\<close>; the metrics at 0 and 1
  are enabled.
\<close>

definition columnStore :: store where
  "columnStore r = \<lparr>enabled = (r < 2), fieldIndices = [r, r]\<rparr>"

text \<open>The same metrics with only the metric at 2, on the width column, enabled.\<close>

definition widthStore :: store where
  "widthStore r = \<lparr>enabled = (r = 2), fieldIndices = [r, r]\<rparr>"

subsection \<open>What the discovery of metrics is stated over\<close>

text \<open>The index of the first field of a batch that is comparable with a field.\<close>

definition comparableIndex :: "(Field \<Rightarrow> Field \<Rightarrow> bool) \<Rightarrow> Field \<Rightarrow> Batch \<Rightarrow> nat option" where
  "comparableIndex cmp field b = findIndex (cmp field) (fields_batch b)"

text \<open>
  A field of the first batch is eligible when every other batch has a comparable field,
  the field and the first comparable field of every other batch are numeric, and the id
  of the field is none of the four excluded ids.
\<close>

definition eligible :: "(Field \<Rightarrow> Field \<Rightarrow> bool) \<Rightarrow> Batch list \<Rightarrow> Field \<Rightarrow> bool" where
  "eligible cmp batches field =
     (list_all (\<lambda>b. comparableIndex cmp field b \<noteq> None) (tl batches)
      \<and> isNumber field
      \<and> list_all (\<lambda>b. isNumber (fields_batch b ! the (comparableIndex cmp field b))) (tl batches)
      \<and> id_field field \<notin> {WIDTH, HEIGHT, EFFORT, QUALITY})"

text \<open>The metric of an eligible field at index \<open>k\<close> of the first batch.\<close>

definition metricOf :: "(Field \<Rightarrow> Field \<Rightarrow> bool) \<Rightarrow> Batch list \<Rightarrow> nat \<Rightarrow> Field \<Rightarrow> FieldMetric" where
  "metricOf cmp batches k field =
     new_FieldMetric (k # map (\<lambda>b. the (comparableIndex cmp field b)) (tl batches))"

text \<open>
  Two batches for the discovery: the second has the encoded-size column twice, around its
  width column.
\<close>

definition oneSize :: Batch where
  "oneSize = \<lparr>index = 0, fields_batch = [widthField, sizeField], rows = []\<rparr>"

definition twoSizes :: Batch where
  "twoSizes = \<lparr>index = 1, fields_batch = [sizeField, widthField, sizeField], rows = []\<rparr>"

text \<open>A batch with a width column only.\<close>

definition widthOnly :: Batch where
  "widthOnly = \<lparr>index = 1, fields_batch = [widthField], rows = []\<rparr>"

section \<open>Batch selections\<close>

text \<open>
  Modelled from the spec: the class \<open>FieldFilter\<close> of \<open>filter.ts\<close>, which is not
  among the sources. The specification gives a filter inclusive bounds for a numeric
  field and a set of accepted values for a categorical field; the constructor of
  \<open>BatchSelection\<close> writes the members \<open>rangeStart\<close>, \<open>rangeEnd\<close> (here
  \<open>rangeStart_filter\<close>, \<open>rangeEnd_filter\<close>) and adds to the set \<open>uniqueValues\<close>,
  which is empty in a new filter.
\<close>

record FieldFilter =
  rangeStart_filter :: jsnum
  rangeEnd_filter :: jsnum
  uniqueValues :: "string set"

definition new_FieldFilter :: FieldFilter where
  "new_FieldFilter = \<lparr>rangeStart_filter = Fin 0, rangeEnd_filter = Fin 0, uniqueValues = {}\<rparr>"

text \<open>
  The members of a \<open>BatchSelection\<close>. Of \<open>matchedDataPoints\<close>, whose class
  \<open>MatchedDataPoints\<close> is in \<open>matcher.ts\<close>, the rows are kept.
\<close>

record BatchSelection =
  batch :: Batch
  fieldFilters :: "FieldFilter list"
  filteredRowIndices :: "nat list"
  matchedDataPoints :: "Match list"
  stats :: "FieldMetricStats list"

text \<open>
  The calls that the constructor and its listener make to other modules, in the order
  they are made. Of the event types of \<open>events.ts\<close> the two that
  \<open>batch_selection.ts\<close> names are kept.
\<close>

datatype EventType = FILTER_CHANGED | FILTERED_DATA_CHANGED

datatype call = EnableDefaultFilters | Listen EventType | Dispatch EventType nat

text \<open>The body of the loop "Create the fieldFilters": the filter of one field.\<close>

definition createFieldFilter :: "Field \<Rightarrow> FieldFilter" where
  "createFieldFilter field =
     (let fieldFilter = new_FieldFilter
            \<lparr>rangeStart_filter := rangeStart field, rangeEnd_filter := rangeEnd field\<rparr>
      in if \<not> isNumber field
         then fieldFilter\<lparr>uniqueValues :=
                fold (\<lambda>value values. insert value values) (uniqueValuesArray field)
                  (uniqueValues fieldFilter)\<rparr>
         else fieldFilter)"

text \<open>
  The constructor of \<open>BatchSelection\<close>. The function \<open>enableDefaultFilters\<close> of
  \<open>filter.ts\<close> is a parameter: it is handed the batch and the array of filters, and
  what it leaves in the array is its result here. The constructor returns the new
  object and the calls it made.
\<close>

definition new_BatchSelection ::
  "(Batch \<Rightarrow> FieldFilter list \<Rightarrow> FieldFilter list) \<Rightarrow> Batch \<Rightarrow> BatchSelection \<times> call list"
where
  "new_BatchSelection enableDefaultFilters selectedBatch =
     (let this = \<lparr>batch = selectedBatch, fieldFilters = [], filteredRowIndices = [],
                  matchedDataPoints = [], stats = []\<rparr>;
          this = this\<lparr>fieldFilters :=
                   fold (\<lambda>field filters. filters @ [createFieldFilter field])
                     (fields_batch selectedBatch) (fieldFilters this)\<rparr>;
          this = this\<lparr>fieldFilters := enableDefaultFilters (batch this) (fieldFilters this)\<rparr>
      in (this, [EnableDefaultFilters, Listen FILTER_CHANGED]))"

text \<open>
  The listener that the constructor registers for \<open>FILTER_CHANGED\<close>, with
  \<open>updateFilteredRows\<close> inlined. The function \<open>getFilteredRowIndices\<close> of
  \<open>filter.ts\<close> is a parameter.
\<close>

definition onFilterChanged ::
  "(Batch \<Rightarrow> FieldFilter list \<Rightarrow> nat list) \<Rightarrow> BatchSelection \<Rightarrow> nat
   \<Rightarrow> BatchSelection \<times> call list"
where
  "onFilterChanged getFilteredRowIndices this batchIndex =
     (if batchIndex \<noteq> index (batch this) then (this, [])
      else (this\<lparr>filteredRowIndices := getFilteredRowIndices (batch this) (fieldFilters this)\<rparr>,
            [Dispatch FILTERED_DATA_CHANGED batchIndex]))"

text \<open>A categorical column, and a batch with it and the encoded-size column.\<close>

definition codecField :: Field where
  "codecField = \<lparr>id_field = OTHER_ID 0, isNumber = False, rangeStart = Fin 0,
                  rangeEnd = Fin 0, uniqueValuesArray = [''avif'', ''webp'']\<rparr>"

definition codecSizes :: Batch where
  "codecSizes = \<lparr>index = 0, fields_batch = [codecField, sizeField], rows = []\<rparr>"

text \<open>A default-filter step for the examples: it narrows every range to its start.\<close>

definition narrowToStart :: "Batch \<Rightarrow> FieldFilter list \<Rightarrow> FieldFilter list" where
  "narrowToStart b filters =
     map (\<lambda>fieldFilter. fieldFilter\<lparr>rangeEnd_filter := rangeStart_filter fieldFilter\<rparr>) filters"

section \<open>The panel of matches\<close>

text \<open>
  The members of \<open>State\<close> that the listener of \<open>MatchesUi\<close> reads, over any type of
  batch selections, and the members of the component that it writes: the displayed
  selection, \<open>style.display\<close> and the number of calls of \<open>requestUpdate\<close>.
\<close>

record 'sel State =
  referenceBatchSelectionIndex :: nat
  batchSelections :: "'sel list"

record 'sel MatchesUi =
  state :: "'sel State"
  batchSelection :: "'sel option"
  display :: string
  updateRequests :: nat

text \<open>
  The listener for \<open>MATCHES_INFO_REQUEST\<close>, on the batch index of the event. A read past
  the end of \<open>batchSelections\<close> gives \<open>undefined\<close>, here \<open>None\<close>.
\<close>

definition onMatchesInfoRequest :: "'sel MatchesUi \<Rightarrow> nat \<Rightarrow> 'sel MatchesUi" where
  "onMatchesInfoRequest this batchIndex =
     (if batchIndex = referenceBatchSelectionIndex (state this) then this
      else this\<lparr>batchSelection :=
                  (if batchIndex < length (batchSelections (state this))
                   then Some (batchSelections (state this) ! batchIndex) else None),
                display := ''block'',
                updateRequests := Suc (updateRequests this)\<rparr>)"

text \<open>A closed panel over three selections, the second of which is the reference.\<close>

definition closedPanel :: "string MatchesUi" where
  "closedPanel =
     \<lparr>state = \<lparr>referenceBatchSelectionIndex = 1, batchSelections = [''a'', ''b'', ''c'']\<rparr>,
      batchSelection = None, display = ''none'', updateRequests = 0\<rparr>"

section \<open>Properties\<close>

lemma js_seq_zero [simp]: "js_seq a (Fin 0) = (a = Fin 0)"
  by (cases a) simp_all

lemma is_double_0: "is_double 0"
  unfolding is_double_def by (intro exI [of _ 0]) simp

lemma is_double_2: "is_double 2"
proof -
  have "\<bar>2 :: int\<bar> < 2 ^ 53 \<and> - 1074 \<le> (0 :: int) \<and> (0 :: int) \<le> 971
      \<and> (2 :: rat) = of_int 2 * 2 powi 0"
    by simp
  then show ?thesis unfolding is_double_def by blast
qed

text \<open>
  Claim C1. \<open>getRatio\<close> is a total function of two numbers with no failing path.
  With a zero divisor it returns 1 for a zero dividend and plus infinity for every other
  dividend; with a divisor other than zero it returns the quotient \<open>a / b\<close> of the
  numbers, which for finite operands is the double quotient. In particular
  \<open>getRatio(0,0) = 1\<close> and \<open>getRatio(5,0) = +infinity\<close>, and, as double division
  returns a quotient that is a double as it is, \<open>getRatio(0,5) = 0\<close> and
  \<open>getRatio(4,2) = 2\<close>.
\<close>

theorem getRatio_total:
  "getRatio ar (Fin 0) (Fin 0) = Fin 1
   \<and> getRatio ar a (Fin 0) = (if a = Fin 0 then Fin 1 else PInf)
   \<and> getRatio ar a b = (if b = Fin 0 then getRatio ar a (Fin 0) else js_div ar a b)
   \<and> getRatio ar (Fin x) (Fin y) =
       (if y = 0 then (if x = 0 then Fin 1 else PInf) else float_div ar x y)
   \<and> getRatio ar (Fin 5) (Fin 0) = PInf
   \<and> (exact_quotients ar \<longrightarrow>
        getRatio ar (Fin 0) (Fin 5) = Fin 0 \<and> getRatio ar (Fin 4) (Fin 2) = Fin 2)"
proof -
  have "float_div ar 0 5 = Fin 0" "float_div ar 4 2 = Fin 2" if "exact_quotients ar"
  proof -
    have "is_double ((0 :: rat) / 5)" "is_double ((4 :: rat) / 2)"
      by (simp_all add: is_double_0 is_double_2)
    with that have "float_div ar 0 5 = Fin (0 / 5)" "float_div ar 4 2 = Fin (4 / 2)"
      unfolding exact_quotients_def by (metis zero_neq_numeral)+
    then show "float_div ar 0 5 = Fin 0" "float_div ar 4 2 = Fin 2" by simp_all
  qed
  then show ?thesis by (simp add: getRatio_def)
qed

text \<open>
  With the arithmetic that returns every quotient as it is, \<open>getRatio(0,5)\<close> is 0 and
  \<open>getRatio(4,2)\<close> is 2.
\<close>

theorem getRatio_total_witness:
  "exact_quotients exactArith
   \<and> getRatio exactArith (Fin 0) (Fin 5) = Fin 0
   \<and> getRatio exactArith (Fin 4) (Fin 2) = Fin 2"
proof -
  have "exact_quotients exactArith"
    by (simp add: exact_quotients_def exactArith_def)
  then show ?thesis
    using getRatio_total [of exactArith] by blast
qed

subsection \<open>computeStats\<close>

lemma dataPointValues_valid:
  "leftIndex dp < length (rows lb) \<Longrightarrow> rightIndex dp < length (rows rb) \<Longrightarrow>
   dataPointValues lb rb lfi rfi dp =
     Inr (cellAt (rows lb ! leftIndex dp) lfi, cellAt (rows rb ! rightIndex dp) rfi)"
  by (simp add: dataPointValues_def rowAt_def)

lemma dataPointsLoop_running:
  "validDataPoints lb rb dps \<Longrightarrow> 0 < numDataPoints v \<Longrightarrow>
   dataPointsLoop ar gm lb rb (fieldIndexOf m lb) (fieldIndexOf m rb) dps v =
     Inr (v\<lparr>fieldStats := (fieldStats v)
               \<lparr>minRatio := foldl Math_min (minRatio (fieldStats v)) (readRatios ar lb rb m dps),
                maxRatio := foldl Math_max (maxRatio (fieldStats v)) (readRatios ar lb rb m dps)\<rparr>,
            geometricMeanAcc :=
              foldl (gm_add gm) (geometricMeanAcc v) (readRatios ar lb rb m dps),
            leftSum := foldl (js_add ar) (leftSum v) (readLeftValues lb m dps),
            rightSum := foldl (js_add ar) (rightSum v) (readRightValues rb m dps),
            numDataPoints := numDataPoints v + length dps\<rparr>)"
proof (induction dps arbitrary: v)
  case Nil
  then show ?case by (simp add: readRatios_def readLeftValues_def readRightValues_def)
next
  case (Cons dp dps)
  then show ?case
    by (simp add: validDataPoints_def dataPointValues_valid readRatios_def readLeftValues_def
        readRightValues_def Let_def)
qed

lemma dataPointsLoop_first:
  assumes "validDataPoints lb rb (dp # dps)" and "numDataPoints v = 0"
  shows "dataPointsLoop ar gm lb rb (fieldIndexOf m lb) (fieldIndexOf m rb) (dp # dps) v =
     Inr (v\<lparr>fieldStats := (fieldStats v)
               \<lparr>minRatio := foldl Math_min (hd (readRatios ar lb rb m (dp # dps)))
                              (tl (readRatios ar lb rb m (dp # dps))),
                maxRatio := foldl Math_max (hd (readRatios ar lb rb m (dp # dps)))
                              (tl (readRatios ar lb rb m (dp # dps)))\<rparr>,
            geometricMeanAcc :=
              foldl (gm_add gm) (geometricMeanAcc v) (readRatios ar lb rb m (dp # dps)),
            leftSum := foldl (js_add ar) (leftSum v) (readLeftValues lb m (dp # dps)),
            rightSum := foldl (js_add ar) (rightSum v) (readRightValues rb m (dp # dps)),
            numDataPoints := Suc (length dps)\<rparr>)"
proof -
  have v: "validDataPoints lb rb dps" and l: "leftIndex dp < length (rows lb)"
    and r: "rightIndex dp < length (rows rb)"
    using assms(1) by (simp_all add: validDataPoints_def)
  show ?thesis
    using assms(2) l r
    by (simp add: dataPointValues_valid Let_def dataPointsLoop_running [OF v]
        readRatios_def readLeftValues_def readRightValues_def)
qed

lemma metricStats_valid:
  assumes "validDataPoints lb rb dps"
  shows "metricStats ar gm lb rb dps m = Inr (statsOf ar gm lb rb dps m)"
proof (cases dps)
  case Nil
  then show ?thesis by (simp add: metricStats_def statsOf_def)
next
  case (Cons dp dps')
  have "validDataPoints lb rb (dp # dps')" using assms Cons by simp
  then show ?thesis
    unfolding Cons metricStats_def Let_def
    by (subst dataPointsLoop_first)
       (simp_all add: statsOf_def new_FieldMetricStats_def total_def)
qed

lemma metricsLoop_valid:
  "validDataPoints lb rb dps \<Longrightarrow>
   metricsLoop ar gm lb rb dps ms acc = Inr (acc @ map (statsOf ar gm lb rb dps) ms)"
  by (induction ms arbitrary: acc) (simp_all add: metricStats_valid)

lemma computeStats_valid:
  "validDataPoints lb rb dps \<Longrightarrow>
   computeStats ar gm lb rb dps ms = Inr (map (statsOf ar gm lb rb dps) ms)"
  by (simp add: computeStats_def metricsLoop_valid)

text \<open>
  For a metric that has its indices and rows that have the cells, what the loop reads
  are the field values of the metric.
\<close>

lemma readLeftValues_cells:
  "metricCells lb rb m dps \<Longrightarrow> readLeftValues lb m dps = leftValues lb m dps"
  by (induction dps)
     (simp_all add: metricCells_def readLeftValues_def leftValues_def cellAt_def
        fieldIndexOf_def)

lemma readRightValues_cells:
  "metricCells lb rb m dps \<Longrightarrow> readRightValues rb m dps = rightValues rb m dps"
  by (induction dps)
     (simp_all add: metricCells_def readRightValues_def rightValues_def cellAt_def
        fieldIndexOf_def)

lemma readRatios_cells:
  "metricCells lb rb m dps \<Longrightarrow> readRatios ar lb rb m dps = ratios ar lb rb m dps"
  by (induction dps)
     (simp_all add: metricCells_def readRatios_def readLeftValues_def readRightValues_def
        ratios_def cellAt_def fieldIndexOf_def)

text \<open>
  Claim C2. For every pair of batches and every list of metrics, \<open>computeStats\<close> on
  an empty list of matches returns one \<open>FieldMetricStats\<close> for each metric, in the
  order of the metrics, and each of them has the geometric mean, the minimum ratio, the
  maximum ratio and the arithmetic mean all equal to 1.
\<close>

theorem computeStats_empty:
  "computeStats ar gm leftBatch rightBatch [] metrics =
     Inr (replicate (length metrics)
            \<lparr>geometricMean = Fin 1, minRatio = Fin 1, maxRatio = Fin 1, arithmeticMean = Fin 1\<rparr>)"
proof -
  have "validDataPoints leftBatch rightBatch []" by (simp add: validDataPoints_def)
  then have "computeStats ar gm leftBatch rightBatch [] metrics =
      Inr (map (statsOf ar gm leftBatch rightBatch []) metrics)"
    by (rule computeStats_valid)
  also have "map (statsOf ar gm leftBatch rightBatch []) metrics =
      replicate (length metrics) new_FieldMetricStats"
    by (induction metrics) (simp_all add: statsOf_def)
  finally show ?thesis by (simp add: new_FieldMetricStats_def)
qed

text \<open>
  Claim C4. For a non-empty list of matches that all name rows, \<open>computeStats\<close>
  returns statistics for every metric, and for a metric whose cells the matched rows
  have, the arithmetic mean is \<open>getRatio\<close> of the sum of the left rows' field values
  and the sum of the right rows' field values: a ratio of totals.
\<close>

theorem computeStats_arithmeticMean:
  assumes "dataPoints \<noteq> []"
    and "validDataPoints leftBatch rightBatch dataPoints"
    and "i < length metrics"
    and "metricCells leftBatch rightBatch (metrics ! i) dataPoints"
  shows "\<exists>stats. computeStats ar gm leftBatch rightBatch dataPoints metrics = Inr stats
           \<and> length stats = length metrics
           \<and> arithmeticMean (stats ! i) =
               getRatio ar (total ar (leftValues leftBatch (metrics ! i) dataPoints))
                           (total ar (rightValues rightBatch (metrics ! i) dataPoints))"
  using assms(1-3)
  by (simp add: computeStats_valid statsOf_def readLeftValues_cells [OF assms(4)]
      readRightValues_cells [OF assms(4)])

lemma js_le_refl: "a \<noteq> NaN \<Longrightarrow> js_le a a"
  by (cases a) simp_all

lemma js_le_total: "a \<noteq> NaN \<Longrightarrow> b \<noteq> NaN \<Longrightarrow> js_le a b \<or> js_le b a"
  by (cases a; cases b) auto

lemma js_le_trans: "js_le a b \<Longrightarrow> js_le b c \<Longrightarrow> js_le a c"
  by (cases a; cases b; cases c) auto

lemma foldl_Math_min_NaN_start: "foldl Math_min NaN rs = NaN"
  by (induction rs) (simp_all add: Math_min_def)

lemma foldl_Math_max_NaN_start: "foldl Math_max NaN rs = NaN"
  by (induction rs) (simp_all add: Math_max_def)

lemma foldl_Math_min_NaN: "NaN \<in> set (r # rs) \<Longrightarrow> foldl Math_min r rs = NaN"
proof (induction rs arbitrary: r)
  case Nil
  then show ?case by simp
next
  case (Cons x rs)
  show ?case
  proof (cases "r = NaN \<or> x = NaN")
    case True
    then have "Math_min r x = NaN" by (auto simp: Math_min_def)
    then show ?thesis by (simp add: foldl_Math_min_NaN_start)
  next
    case False
    with Cons.prems have "NaN \<in> set (Math_min r x # rs)" by auto
    then show ?thesis using Cons.IH by simp
  qed
qed

lemma foldl_Math_max_NaN: "NaN \<in> set (r # rs) \<Longrightarrow> foldl Math_max r rs = NaN"
proof (induction rs arbitrary: r)
  case Nil
  then show ?case by simp
next
  case (Cons x rs)
  show ?case
  proof (cases "r = NaN \<or> x = NaN")
    case True
    then have "Math_max r x = NaN" by (auto simp: Math_max_def)
    then show ?thesis by (simp add: foldl_Math_max_NaN_start)
  next
    case False
    with Cons.prems have "NaN \<in> set (Math_max r x # rs)" by auto
    then show ?thesis using Cons.IH by simp
  qed
qed

lemma foldl_Math_min_least:
  "NaN \<notin> set (r # rs) \<Longrightarrow>
   foldl Math_min r rs \<in> set (r # rs) \<and> (\<forall>x \<in> set (r # rs). js_le (foldl Math_min r rs) x)"
proof (induction rs arbitrary: r)
  case Nil
  then show ?case by (simp add: js_le_refl)
next
  case (Cons y rs)
  let ?m = "Math_min r y"
  from Cons.prems have nn: "r \<noteq> NaN" "y \<noteq> NaN" "NaN \<notin> set rs" by auto
  then have m: "?m \<in> {r, y}" "js_le ?m r" "js_le ?m y"
    using js_le_total [of r y] by (auto simp: Math_min_def js_le_refl)
  then have "NaN \<notin> set (?m # rs)" using nn by auto
  from Cons.IH [OF this]
  have ih: "foldl Math_min ?m rs \<in> set (?m # rs)"
    "\<forall>x \<in> set (?m # rs). js_le (foldl Math_min ?m rs) x" by auto
  have "js_le (foldl Math_min ?m rs) ?m" using ih(2) by simp
  then have "js_le (foldl Math_min ?m rs) r" "js_le (foldl Math_min ?m rs) y"
    using m(2,3) js_le_trans by blast+
  then show ?case using ih m(1) by auto
qed

lemma foldl_Math_max_greatest:
  "NaN \<notin> set (r # rs) \<Longrightarrow>
   foldl Math_max r rs \<in> set (r # rs) \<and> (\<forall>x \<in> set (r # rs). js_le x (foldl Math_max r rs))"
proof (induction rs arbitrary: r)
  case Nil
  then show ?case by (simp add: js_le_refl)
next
  case (Cons y rs)
  let ?m = "Math_max r y"
  from Cons.prems have nn: "r \<noteq> NaN" "y \<noteq> NaN" "NaN \<notin> set rs" by auto
  then have m: "?m \<in> {r, y}" "js_le r ?m" "js_le y ?m"
    using js_le_total [of r y] by (auto simp: Math_max_def js_le_refl)
  then have "NaN \<notin> set (?m # rs)" using nn by auto
  from Cons.IH [OF this]
  have ih: "foldl Math_max ?m rs \<in> set (?m # rs)"
    "\<forall>x \<in> set (?m # rs). js_le x (foldl Math_max ?m rs)" by auto
  have "js_le ?m (foldl Math_max ?m rs)" using ih(2) by simp
  then have "js_le r (foldl Math_max ?m rs)" "js_le y (foldl Math_max ?m rs)"
    using m(2,3) js_le_trans by blast+
  then show ?case using ih m(1) by auto
qed

lemma js_le_PInf: "js_le PInf a \<Longrightarrow> a = PInf"
  by (cases a) simp_all

text \<open>
  Claim C5. For a non-empty list of matches that all name rows, \<open>computeStats\<close>
  returns statistics for every metric, and for a metric whose cells the matched rows
  have, the minimum and the maximum ratio are \<open>Math.min\<close> and \<open>Math.max\<close> folded
  over the ratios \<open>getRatio(leftValue, rightValue)\<close> of the matches, starting from the
  ratio of the first match and from no other value. When no ratio is \<open>NaN\<close> they are
  members of the list of ratios, below and above every ratio; a \<open>NaN\<close> ratio makes
  both \<open>NaN\<close>, as \<open>Math.min\<close> and \<open>Math.max\<close> do. A ratio of plus infinity among
  ratios without \<open>NaN\<close> makes the maximum ratio plus infinity.
\<close>

theorem computeStats_minRatio_maxRatio:
  assumes "dataPoints \<noteq> []"
    and "validDataPoints leftBatch rightBatch dataPoints"
    and "i < length metrics"
    and "metricCells leftBatch rightBatch (metrics ! i) dataPoints"
  shows "\<exists>stats rs. computeStats ar gm leftBatch rightBatch dataPoints metrics = Inr stats
           \<and> rs = ratios ar leftBatch rightBatch (metrics ! i) dataPoints
           \<and> minRatio (stats ! i) = foldl Math_min (hd rs) (tl rs)
           \<and> maxRatio (stats ! i) = foldl Math_max (hd rs) (tl rs)
           \<and> (if NaN \<in> set rs then minRatio (stats ! i) = NaN \<and> maxRatio (stats ! i) = NaN
              else minRatio (stats ! i) \<in> set rs \<and> maxRatio (stats ! i) \<in> set rs
                 \<and> (\<forall>r \<in> set rs. js_le (minRatio (stats ! i)) r \<and> js_le r (maxRatio (stats ! i))))
           \<and> (PInf \<in> set rs \<and> NaN \<notin> set rs \<longrightarrow> maxRatio (stats ! i) = PInf)"
proof -
  let ?rs = "ratios ar leftBatch rightBatch (metrics ! i) dataPoints"
  let ?st = "statsOf ar gm leftBatch rightBatch dataPoints (metrics ! i)"
  have ne: "?rs \<noteq> []" using assms(1) by (simp add: ratios_def)
  then have split: "hd ?rs # tl ?rs = ?rs" by simp
  have lo: "minRatio ?st = foldl Math_min (hd ?rs) (tl ?rs)"
    and hi: "maxRatio ?st = foldl Math_max (hd ?rs) (tl ?rs)"
    using assms(1) by (simp_all add: statsOf_def readRatios_cells [OF assms(4)])
  have nan: "NaN \<in> set ?rs \<Longrightarrow> minRatio ?st = NaN \<and> maxRatio ?st = NaN"
    using foldl_Math_min_NaN [of "hd ?rs" "tl ?rs"] foldl_Math_max_NaN [of "hd ?rs" "tl ?rs"]
    unfolding split lo hi by simp
  have ord: "NaN \<notin> set ?rs \<Longrightarrow> minRatio ?st \<in> set ?rs \<and> maxRatio ?st \<in> set ?rs
      \<and> (\<forall>r \<in> set ?rs. js_le (minRatio ?st) r \<and> js_le r (maxRatio ?st))"
    using foldl_Math_min_least [of "hd ?rs" "tl ?rs"]
      foldl_Math_max_greatest [of "hd ?rs" "tl ?rs"]
    unfolding split lo hi by simp
  have inf: "PInf \<in> set ?rs \<and> NaN \<notin> set ?rs \<longrightarrow> maxRatio ?st = PInf"
    using ord js_le_PInf by blast
  define stats where "stats = map (statsOf ar gm leftBatch rightBatch dataPoints) metrics"
  have cs: "computeStats ar gm leftBatch rightBatch dataPoints metrics = Inr stats"
    unfolding stats_def using assms(2) by (rule computeStats_valid)
  have sti: "stats ! i = ?st"
    unfolding stats_def using assms(3) by simp
  have cases: "if NaN \<in> set ?rs then minRatio ?st = NaN \<and> maxRatio ?st = NaN
      else minRatio ?st \<in> set ?rs \<and> maxRatio ?st \<in> set ?rs
         \<and> (\<forall>r \<in> set ?rs. js_le (minRatio ?st) r \<and> js_le r (maxRatio ?st))"
    using nan ord by (cases "NaN \<in> set ?rs") simp_all
  show ?thesis
    using cs lo hi cases inf unfolding sti [symmetric] by blast
qed

lemma examples_rows_exist:
  "validDataPoints leftExample rightExample firstTwoMatches"
  "validDataPoints leftExample rightExample lastTwoMatches"
  by (simp_all add: validDataPoints_def leftExample_def rightExample_def firstTwoMatches_def
      lastTwoMatches_def)

lemma examples_cells_exist:
  "metricCells leftExample rightExample sizeMetric firstTwoMatches"
  "metricCells leftExample rightExample sizeMetric lastTwoMatches"
  by (simp_all add: metricCells_def leftExample_def rightExample_def firstTwoMatches_def
      lastTwoMatches_def sizeMetric_def new_FieldMetric_def)

lemma firstTwo_leftValues: "leftValues leftExample sizeMetric firstTwoMatches = [Fin 2, Fin 1]"
  by (simp add: leftValues_def leftExample_def sizeMetric_def firstTwoMatches_def
      new_FieldMetric_def)

lemma firstTwo_rightValues: "rightValues rightExample sizeMetric firstTwoMatches = [Fin 1, Fin 2]"
  by (simp add: rightValues_def rightExample_def sizeMetric_def firstTwoMatches_def
      new_FieldMetric_def)

lemma firstTwo_ratios:
  "ratios exactArith leftExample rightExample sizeMetric firstTwoMatches = [Fin 2, Fin (1 / 2)]"
  by (simp add: ratios_def leftExample_def rightExample_def sizeMetric_def
      firstTwoMatches_def new_FieldMetric_def getRatio_def exactArith_def)

lemma lastTwo_ratios:
  "ratios exactArith leftExample rightExample sizeMetric lastTwoMatches = [PInf, Fin (1 / 2)]"
  by (simp add: ratios_def leftExample_def rightExample_def sizeMetric_def
      lastTwoMatches_def new_FieldMetric_def getRatio_def exactArith_def)

text \<open>
  On the two matches with the left values 2, 1 and the right values 1, 2 the arithmetic
  mean is \<open>3 / 3\<close>, while the average of the two ratios 2 and \<open>1 / 2\<close> is \<open>5 / 4\<close>.
\<close>

theorem computeStats_arithmeticMean_witness:
  "firstTwoMatches \<noteq> []
   \<and> validDataPoints leftExample rightExample firstTwoMatches
   \<and> (0::nat) < length [sizeMetric]
   \<and> metricCells leftExample rightExample ([sizeMetric] ! 0) firstTwoMatches
   \<and> leftValues leftExample sizeMetric firstTwoMatches = [Fin 2, Fin 1]
   \<and> rightValues rightExample sizeMetric firstTwoMatches = [Fin 1, Fin 2]
   \<and> (\<exists>stats. computeStats exactArith unitMean leftExample rightExample firstTwoMatches
                   [sizeMetric] = Inr stats
              \<and> arithmeticMean (stats ! 0) = Fin 1)
   \<and> meanOfRatios exactArith
        (ratios exactArith leftExample rightExample sizeMetric firstTwoMatches) = Fin (5 / 4)"
proof -
  have h1: "firstTwoMatches \<noteq> []" by (simp add: firstTwoMatches_def)
  note h2 = examples_rows_exist(1)
  have h3: "(0::nat) < length [sizeMetric]" by simp
  have h4: "metricCells leftExample rightExample ([sizeMetric] ! 0) firstTwoMatches"
    by (simp add: examples_cells_exist)
  have m: "meanOfRatios exactArith
      (ratios exactArith leftExample rightExample sizeMetric firstTwoMatches) = Fin (5 / 4)"
    unfolding firstTwo_ratios by (simp add: meanOfRatios_def total_def exactArith_def)
  from computeStats_arithmeticMean [OF h1 h2 h3 h4, of exactArith unitMean]
  obtain stats where
    "computeStats exactArith unitMean leftExample rightExample firstTwoMatches [sizeMetric]
       = Inr stats"
    "arithmeticMean (stats ! 0) = Fin 1"
    by (auto simp: firstTwo_leftValues firstTwo_rightValues total_def getRatio_def
        exactArith_def)
  then show ?thesis
    using h1 h2 h3 h4 m firstTwo_leftValues firstTwo_rightValues by blast
qed

text \<open>
  On the two matches with the ratios \<open>5 / 0\<close> and \<open>1 / 2\<close> the minimum is \<open>1 / 2\<close>
  and the maximum is plus infinity.
\<close>

theorem computeStats_minRatio_maxRatio_witness:
  "lastTwoMatches \<noteq> []
   \<and> validDataPoints leftExample rightExample lastTwoMatches
   \<and> (0::nat) < length [sizeMetric]
   \<and> metricCells leftExample rightExample ([sizeMetric] ! 0) lastTwoMatches
   \<and> ratios exactArith leftExample rightExample sizeMetric lastTwoMatches
       = [PInf, Fin (1 / 2)]
   \<and> (\<exists>stats. computeStats exactArith unitMean leftExample rightExample lastTwoMatches
                   [sizeMetric] = Inr stats
              \<and> minRatio (stats ! 0) = Fin (1 / 2) \<and> maxRatio (stats ! 0) = PInf)"
proof -
  have h1: "lastTwoMatches \<noteq> []" by (simp add: lastTwoMatches_def)
  note h2 = examples_rows_exist(2)
  have h3: "(0::nat) < length [sizeMetric]" by simp
  have h4: "metricCells leftExample rightExample ([sizeMetric] ! 0) lastTwoMatches"
    by (simp add: examples_cells_exist)
  from computeStats_minRatio_maxRatio [OF h1 h2 h3 h4, of exactArith unitMean]
  obtain stats where
    "computeStats exactArith unitMean leftExample rightExample lastTwoMatches [sizeMetric]
       = Inr stats"
    "minRatio (stats ! 0) = Fin (1 / 2)" "maxRatio (stats ! 0) = PInf"
    by (auto simp: lastTwo_ratios Math_min_def Math_max_def)
  then show ?thesis using h1 h2 h3 h4 lastTwo_ratios by blast
qed

subsection \<open>selectPlotMetrics\<close>

lemma find_filter: "find p xs = (case filter p xs of [] \<Rightarrow> None | x # _ \<Rightarrow> Some x)"
  by (induction xs) simp_all

lemma find_throwing_enabledWithId:
  "metricsOfBatch firstBatch h metrics \<Longrightarrow>
   find_throwing (enabledWithId firstBatch h fid) metrics =
     Inr (firstEnabledWithId firstBatch h fid metrics)"
proof (induction metrics)
  case Nil
  then show ?case by (simp add: firstEnabledWithId_def)
next
  case (Cons m ms)
  then obtain field where f: "metricField firstBatch (h m) = Some field"
    and ms: "metricsOfBatch firstBatch h ms"
    by (auto simp: metricsOfBatch_def)
  from Cons.IH [OF ms] show ?case
    by (simp add: enabledWithId_def metricToFieldId_def f firstEnabledWithId_def)
qed

lemma selectFallback_precedence:
  "selectFallback h metrics =
     (case filter (\<lambda>m. enabled (h m)) metrics of
        x # _ \<Rightarrow>
          (Some x,
           case filter (\<lambda>m. m \<noteq> x) (filter (\<lambda>m. enabled (h m)) metrics) of
             [] \<Rightarrow> Some x
           | y # _ \<Rightarrow> Some y)
      | [] \<Rightarrow> (case metrics of [] \<Rightarrow> (None, None) | m # _ \<Rightarrow> (Some m, Some m)))"
proof (cases "filter (\<lambda>m. enabled (h m)) metrics")
  case Nil
  then show ?thesis
    by (cases metrics)
       (simp_all add: selectFallback_def Let_def find_filter [of "\<lambda>m. enabled (h m)"])
next
  case (Cons x en)
  have "filter (\<lambda>m. enabled (h m) \<and> Some m \<noteq> Some x) metrics =
      filter (\<lambda>m. m \<noteq> x) (filter (\<lambda>m. enabled (h m)) metrics)"
    by (simp add: conj_commute)
  then show ?thesis
    using Cons
    by (simp add: selectFallback_def Let_def find_filter [of "\<lambda>m. enabled (h m)"]
        find_filter [of "\<lambda>m. enabled (h m) \<and> m \<noteq> x"] split: list.splits)
qed

lemma selectPlotMetrics_precedence:
  assumes "metricsOfBatch firstBatch h metrics"
  shows "selectPlotMetrics firstBatch h metrics = Inr (selectPlotMetrics_spec firstBatch h metrics)"
  unfolding selectPlotMetrics_def selectPlotMetrics_spec_def
    find_throwing_enabledWithId [OF assms] selectFallback_precedence Let_def
  by (simp split: option.splits)

lemma metricField_threeColumns:
  "metricField threeColumns \<lparr>enabled = e, fieldIndices = [k, k]\<rparr> =
     (if k = 0 then Some sizeField else if k = 1 then Some durationField
      else if k = 2 then Some widthField else None)"
  by (auto simp: metricField_def threeColumns_def nth_Cons split: nat.splits)

lemma firstEnabledWithId_Nil: "firstEnabledWithId firstBatch h fid [] = None"
  by (simp add: firstEnabledWithId_def)

text \<open>
  Claim C6. For metrics that all name a field of the first batch, \<open>selectPlotMetrics\<close>
  returns the pair that the four steps of the precedence give: the enabled encoded-size
  metric with the enabled encoding-duration metric, else the enabled decoding-duration
  metric, when both exist; else the first enabled metric with a second enabled metric
  that is another one, or with itself; else the first metric twice; else no selection.
\<close>

theorem selectPlotMetrics_follows_precedence:
  assumes "metricsOfBatch firstBatch h metrics"
  shows "selectPlotMetrics firstBatch h metrics = Inr (selectPlotMetrics_spec firstBatch h metrics)"
  using assms by (rule selectPlotMetrics_precedence)

text \<open>
  With the metrics listed as 2, 1, 0 and those at 0 and 1 enabled, the first step
  selects encoded size for x and encoding duration for y.
\<close>

theorem selectPlotMetrics_follows_precedence_witness:
  "metricsOfBatch threeColumns columnStore [2, 1, 0]
   \<and> selectPlotMetrics threeColumns columnStore [2, 1, 0] = Inr (Some 0, Some 1)"
proof -
  have wf: "metricsOfBatch threeColumns columnStore [2, 1, 0]"
    by (simp add: metricsOfBatch_def columnStore_def metricField_threeColumns)
  have "selectPlotMetrics_spec threeColumns columnStore [2, 1, 0] = (Some 0, Some 1)"
    by (simp add: selectPlotMetrics_spec_def firstEnabledWithId_def columnStore_def
        metricField_threeColumns sizeField_def durationField_def)
  then show ?thesis
    using wf selectPlotMetrics_follows_precedence [OF wf] by simp
qed

text \<open>
  Claim C9. For metrics that all name a field of the first batch, \<open>selectPlotMetrics\<close>
  returns a pair whose components are both metrics or both \<open>undefined\<close>, and both are
  \<open>undefined\<close> exactly when the list of metrics is empty.
\<close>

theorem selectPlotMetrics_both_or_neither:
  assumes "metricsOfBatch firstBatch h metrics"
  shows "\<exists>x y. selectPlotMetrics firstBatch h metrics = Inr (x, y)
           \<and> ((x = None) = (y = None))
           \<and> ((x = None \<and> y = None) = (metrics = []))"
proof -
  obtain x y where xy: "selectPlotMetrics_spec firstBatch h metrics = (x, y)"
    by (cases "selectPlotMetrics_spec firstBatch h metrics")
  have "(x = None) = (y = None) \<and> (x = None \<and> y = None) = (metrics = [])"
    using xy
    by (auto simp: selectPlotMetrics_spec_def Let_def firstEnabledWithId_Nil
        split: if_splits list.splits option.splits)
  then show ?thesis
    using selectPlotMetrics_precedence [OF assms] xy by auto
qed

text \<open>With one metric, which is not enabled, both axes get that metric.\<close>

theorem selectPlotMetrics_both_or_neither_witness:
  "metricsOfBatch threeColumns columnStore [2]
   \<and> (\<exists>x y. selectPlotMetrics threeColumns columnStore [2] = Inr (x, y)
          \<and> x = Some 2 \<and> y = Some 2 \<and> ((x = None) = (y = None))
          \<and> ((x = None \<and> y = None) = ([2::nat] = [])))"
proof -
  have wf: "metricsOfBatch threeColumns columnStore [2]"
    by (simp add: metricsOfBatch_def columnStore_def metricField_threeColumns)
  have "selectPlotMetrics threeColumns columnStore [2] = Inr (Some 2, Some 2)"
    by (simp add: selectPlotMetrics_def enabledWithId_def selectFallback_def columnStore_def)
  then show ?thesis
    using wf selectPlotMetrics_both_or_neither [OF wf] by simp
qed

subsection \<open>enableDefaultMetrics\<close>

lemma enableDefaultMetrics_changes:
  "enableDefaultMetrics firstBatch metrics h = (err, h') \<Longrightarrow>
   h' r = h r
   \<or> (h' r = (h r)\<lparr>enabled := True\<rparr> \<and> r \<in> set metrics
      \<and> (\<exists>field. metricField firstBatch (h r) = Some field
            \<and> id_field field \<in> {ENCODED_SIZE, ENCODING_DURATION, DECODING_DURATION}))"
proof (induction metrics arbitrary: h)
  case Nil
  then show ?case by simp
next
  case (Cons m ms)
  show ?case
  proof (cases "metricField firstBatch (h m)")
    case None
    with Cons.prems show ?thesis by simp
  next
    case (Some field)
    show ?thesis
    proof (cases "id_field field \<in> {ENCODED_SIZE, ENCODING_DURATION, DECODING_DURATION}")
      case False
      with Some Cons.prems have "enableDefaultMetrics firstBatch ms h = (err, h')" by simp
      from Cons.IH [OF this] show ?thesis by auto
    next
      case True
      let ?h = "h(m := (h m)\<lparr>enabled := True\<rparr>)"
      from True Some Cons.prems have "enableDefaultMetrics firstBatch ms ?h = (err, h')"
        by auto
      from Cons.IH [OF this]
      have ih: "h' r = ?h r
        \<or> (h' r = (?h r)\<lparr>enabled := True\<rparr> \<and> r \<in> set ms
           \<and> (\<exists>field. metricField firstBatch (?h r) = Some field
                 \<and> id_field field \<in> {ENCODED_SIZE, ENCODING_DURATION, DECODING_DURATION}))" .
      have mf: "metricField firstBatch (?h r) = metricField firstBatch (h r)"
        by (simp add: metricField_def)
      show ?thesis
      proof (cases "r = m")
        case True
        with ih Some \<open>id_field field \<in> _\<close> show ?thesis by auto
      next
        case False
        with ih show ?thesis by auto
      qed
    qed
  qed
qed

lemma enableDefaultMetrics_returns:
  "enableDefaultMetrics firstBatch metrics h = (None, h') \<Longrightarrow> r \<in> set metrics \<Longrightarrow>
   metricField firstBatch (h r) = Some field \<Longrightarrow>
   id_field field \<in> {ENCODED_SIZE, ENCODING_DURATION, DECODING_DURATION} \<Longrightarrow>
   enabled (h' r)"
proof (induction metrics arbitrary: h)
  case Nil
  then show ?case by simp
next
  case (Cons m ms)
  from Cons.prems(1) obtain f where f: "metricField firstBatch (h m) = Some f"
    by (cases "metricField firstBatch (h m)") simp_all
  let ?h = "if id_field f \<in> {ENCODED_SIZE, ENCODING_DURATION, DECODING_DURATION}
            then h(m := (h m)\<lparr>enabled := True\<rparr>) else h"
  from Cons.prems(1) f have rest: "enableDefaultMetrics firstBatch ms ?h = (None, h')"
    by (auto split: if_splits)
  have "metricField firstBatch ((h(m := (h m)\<lparr>enabled := True\<rparr>)) r) =
      metricField firstBatch (h r)"
    by (simp add: metricField_def)
  then have mf: "metricField firstBatch (?h r) = Some field"
    using Cons.prems(3) by (simp split: if_splits)
  show ?case
  proof (cases "r \<in> set ms")
    case True
    from Cons.IH [OF rest True mf Cons.prems(4)] show ?thesis .
  next
    case False
    with Cons.prems(2) have rm: "r = m" by simp
    with f Cons.prems(3,4) have "enabled (?h r)" by auto
    moreover from enableDefaultMetrics_changes [OF rest, of r]
    have "enabled (?h r) \<longrightarrow> enabled (h' r)" by auto
    ultimately show ?thesis by simp
  qed
qed

text \<open>
  Claim C10. Whatever the batch, the list of metrics and the store, and whether the call
  returns or throws, \<open>enableDefaultMetrics\<close> leaves every metric as it was except for
  its flag \<open>enabled\<close>; an enabled metric stays enabled; and a metric whose flag changed
  is a listed metric whose field of the first batch has the id \<open>ENCODED_SIZE\<close>,
  \<open>ENCODING_DURATION\<close> or \<open>DECODING_DURATION\<close>. The batch is only read: the function
  takes it by value and returns no batch.
\<close>

theorem enableDefaultMetrics_frame:
  assumes "enableDefaultMetrics firstBatch metrics h = (err, h')"
  shows "h' r = (h r)\<lparr>enabled := enabled (h' r)\<rparr>
       \<and> (enabled (h r) \<longrightarrow> enabled (h' r))
       \<and> (enabled (h' r) \<noteq> enabled (h r) \<longrightarrow>
            enabled (h' r) \<and> r \<in> set metrics
            \<and> (\<exists>field. metricField firstBatch (h r) = Some field
                  \<and> id_field field \<in> {ENCODED_SIZE, ENCODING_DURATION, DECODING_DURATION}))"
  using enableDefaultMetrics_changes [OF assms, of r] by auto

text \<open>
  On the three columns, with only the metric on the width column enabled before, the call
  enables the metrics on encoded size and on encoding duration and nothing else.
\<close>

theorem enableDefaultMetrics_frame_witness:
  "enableDefaultMetrics threeColumns [0, 1, 2] widthStore =
     (None, widthStore(0 := (widthStore 0)\<lparr>enabled := True\<rparr>,
                       1 := (widthStore 1)\<lparr>enabled := True\<rparr>))
   \<and> \<not> enabled (widthStore 0)
   \<and> enabled ((widthStore(0 := (widthStore 0)\<lparr>enabled := True\<rparr>,
                           1 := (widthStore 1)\<lparr>enabled := True\<rparr>)) 0)
   \<and> (0::nat) \<in> set [0, 1, 2]
   \<and> metricField threeColumns (widthStore 0) = Some sizeField
   \<and> enabled (widthStore 2)
   \<and> enabled ((widthStore(0 := (widthStore 0)\<lparr>enabled := True\<rparr>,
                           1 := (widthStore 1)\<lparr>enabled := True\<rparr>)) 2)"
proof -
  have run: "enableDefaultMetrics threeColumns [0, 1, 2] widthStore =
     (None, widthStore(0 := (widthStore 0)\<lparr>enabled := True\<rparr>,
                       1 := (widthStore 1)\<lparr>enabled := True\<rparr>))"
    by (simp add: widthStore_def metricField_threeColumns sizeField_def durationField_def
        widthField_def)
  show ?thesis
    using run enableDefaultMetrics_frame [OF run, of 0] enableDefaultMetrics_frame [OF run, of 2]
    by (simp add: widthStore_def metricField_threeColumns)
qed

subsection \<open>createMetrics\<close>

lemma findIndex_None: "(findIndex p xs = None) = (\<forall>x \<in> set xs. \<not> p x)"
  by (induction xs) simp_all

lemma findIndex_Some:
  "findIndex p xs = Some j \<Longrightarrow> j < length xs \<and> p (xs ! j) \<and> (\<forall>i < j. \<not> p (xs ! i))"
proof (induction xs arbitrary: j)
  case Nil
  then show ?case by simp
next
  case (Cons x xs)
  show ?case
  proof (cases "p x")
    case True
    with Cons.prems show ?thesis by simp
  next
    case False
    with Cons.prems obtain j' where j': "findIndex p xs = Some j'" "j = Suc j'" by auto
    from Cons.IH [OF j'(1)] False j'(2) show ?thesis
      by (auto simp: less_Suc_eq_0_disj)
  qed
qed

lemma otherBatches_found:
  "list_all (\<lambda>b. comparableIndex cmp field b \<noteq> None) bs \<Longrightarrow>
   otherBatches cmp field bs indices isNum =
     (indices @ map (\<lambda>b. the (comparableIndex cmp field b)) bs,
      isNum \<and> list_all (\<lambda>b. isNumber (fields_batch b ! the (comparableIndex cmp field b))) bs)"
proof (induction bs arbitrary: indices isNum)
  case Nil
  then show ?case by simp
next
  case (Cons b bs)
  then obtain j where j: "findIndex (cmp field) (fields_batch b) = Some j"
    by (auto simp: comparableIndex_def)
  from Cons.prems have "list_all (\<lambda>b. comparableIndex cmp field b \<noteq> None) bs" by simp
  from Cons.IH [OF this] j show ?case
    by (simp add: comparableIndex_def)
qed

lemma otherBatches_missing:
  "\<not> list_all (\<lambda>b. comparableIndex cmp field b \<noteq> None) bs \<Longrightarrow>
   length (fst (otherBatches cmp field bs indices isNum)) < length indices + length bs"
proof (induction bs arbitrary: indices isNum)
  case Nil
  then show ?case by simp
next
  case (Cons b bs)
  show ?case
  proof (cases "findIndex (cmp field) (fields_batch b)")
    case None
    then show ?thesis by simp
  next
    case (Some j)
    with Cons.prems have "\<not> list_all (\<lambda>b. comparableIndex cmp field b \<noteq> None) bs"
      by (simp add: comparableIndex_def)
    from Cons.IH [OF this, of "indices @ [j]"] Some show ?thesis by simp
  qed
qed

lemma firstBatchFields_step:
  assumes "batches \<noteq> []"
  shows "firstBatchFields cmp batches ((k, field) # es) metrics =
     firstBatchFields cmp batches es
       (if eligible cmp batches field then metrics @ [metricOf cmp batches k field] else metrics)"
proof (cases "list_all (\<lambda>b. comparableIndex cmp field b \<noteq> None) (tl batches)")
  case True
  have "0 < length batches" using assms by simp
  then show ?thesis
    using True
    by (simp add: otherBatches_found [OF True] eligible_def metricOf_def)
next
  case False
  have len: "0 < length batches" using assms by simp
  obtain ixs n where o: "otherBatches cmp field (tl batches) [k] (isNumber field) = (ixs, n)"
    by (cases "otherBatches cmp field (tl batches) [k] (isNumber field)")
  from otherBatches_missing [OF False, of "[k]" "isNumber field"] o len
  have "length ixs \<noteq> length batches" by simp
  with o have "firstBatchFields cmp batches ((k, field) # es) metrics =
      firstBatchFields cmp batches es metrics"
    by simp
  moreover have "\<not> eligible cmp batches field"
    using False unfolding eligible_def by blast
  ultimately show ?thesis by simp
qed

lemma firstBatchFields_eq:
  assumes "batches \<noteq> []"
  shows "firstBatchFields cmp batches es metrics =
     metrics @ map (\<lambda>(k, field). metricOf cmp batches k field)
                 (filter (\<lambda>(k, field). eligible cmp batches field) es)"
proof (induction es arbitrary: metrics)
  case Nil
  then show ?case by simp
next
  case (Cons e es)
  obtain k field where e: "e = (k, field)" by (cases e)
  show ?case
    unfolding e firstBatchFields_step [OF assms] Cons.IH by simp
qed

lemma createMetrics_eq:
  "createMetrics cmp batches =
     (if batches = [] then []
      else map (\<lambda>(k, field). metricOf cmp batches k field)
             (filter (\<lambda>(k, field). eligible cmp batches field)
                (enumerate 0 (fields_batch (hd batches)))))"
  by (simp add: createMetrics_def firstBatchFields_eq)

lemma createMetrics_member:
  assumes "metric \<in> set (createMetrics cmp batches)"
  shows "\<exists>k < length (fields_batch (hd batches)).
           batches \<noteq> []
           \<and> eligible cmp batches (fields_batch (hd batches) ! k)
           \<and> metric = metricOf cmp batches k (fields_batch (hd batches) ! k)"
proof -
  from assms have ne: "batches \<noteq> []" by (auto simp: createMetrics_eq split: if_splits)
  with assms obtain k field where
    kf: "(k, field) \<in> set (enumerate 0 (fields_batch (hd batches)))"
    and el: "eligible cmp batches field" and m: "metric = metricOf cmp batches k field"
    by (auto simp: createMetrics_eq)
  from kf have "k < length (fields_batch (hd batches))" "field = fields_batch (hd batches) ! k"
    by (simp_all add: in_set_enumerate_eq)
  with ne el m show ?thesis by blast
qed

lemma createMetrics_order:
  "sorted_wrt (<) (map (\<lambda>m. fieldIndices m ! 0) (createMetrics cmp batches))"
proof (cases "batches = []")
  case True
  then show ?thesis by (simp add: createMetrics_eq)
next
  case False
  let ?es = "enumerate 0 (fields_batch (hd batches))"
  have "sorted_wrt (<) (map fst ?es)" by simp
  then have "sorted_wrt (\<lambda>a b. fst a < fst b) ?es" by (simp only: sorted_wrt_map)
  then have "sorted_wrt (\<lambda>a b. fst a < fst b)
      (filter (\<lambda>(k, field). eligible cmp batches field) ?es)"
    by (rule sorted_wrt_filter)
  moreover have "map (\<lambda>m. fieldIndices m ! 0) (createMetrics cmp batches) =
      map fst (filter (\<lambda>(k, field). eligible cmp batches field) ?es)"
    using False
    by (simp add: createMetrics_eq metricOf_def new_FieldMetric_def case_prod_beta comp_def)
  ultimately show ?thesis by (simp only: sorted_wrt_map)
qed

lemma metricOf_other:
  assumes "eligible cmp batches field" and "0 < i" and "i < length batches"
  shows "comparableIndex cmp field (batches ! i) =
           Some (fieldIndices (metricOf cmp batches k field) ! i)
       \<and> isNumber (fields_batch (batches ! i) ! (fieldIndices (metricOf cmp batches k field) ! i))"
proof -
  obtain i' where i': "i = Suc i'" using assms(2) by (cases i) simp_all
  have lt: "i' < length (tl batches)" using assms(3) i' by simp
  have nth: "tl batches ! i' = batches ! i" using assms(3) i' by (simp add: nth_tl)
  have "batches ! i \<in> set (tl batches)" using lt nth nth_mem by metis
  with assms(1) have "comparableIndex cmp field (batches ! i) \<noteq> None"
    "isNumber (fields_batch (batches ! i) ! the (comparableIndex cmp field (batches ! i)))"
    by (auto simp: eligible_def list_all_iff)
  moreover have "fieldIndices (metricOf cmp batches k field) ! i =
      the (comparableIndex cmp field (batches ! i))"
    using lt nth by (simp add: metricOf_def new_FieldMetric_def i')
  ultimately show ?thesis by auto
qed

text \<open>
  Claim C3, amended. \<open>createMetrics\<close> emits a metric for a field of the first batch
  only if every other batch has at least one comparable field, of which the first is the
  one recorded, the field and the recorded fields are numeric, and the id of the field
  is not \<open>WIDTH\<close>, \<open>HEIGHT\<close>, \<open>EFFORT\<close> or \<open>QUALITY\<close>. Every emitted metric has
  one index for each batch. The emitted metrics follow the order of the fields of the
  first batch. A field with no comparable field in some other batch gets no metric.
\<close>

theorem createMetrics_emits_first_comparable:
  "(metric \<in> set (createMetrics cmp batches) \<longrightarrow>
      (\<exists>k. k < length (fields_batch (hd batches))
         \<and> fieldIndices metric ! 0 = k
         \<and> length (fieldIndices metric) = length batches
         \<and> isNumber (fields_batch (hd batches) ! k)
         \<and> id_field (fields_batch (hd batches) ! k) \<notin> {WIDTH, HEIGHT, EFFORT, QUALITY}
         \<and> (\<forall>i. 0 < i \<and> i < length batches \<longrightarrow>
               fieldIndices metric ! i < length (fields_batch (batches ! i))
               \<and> cmp (fields_batch (hd batches) ! k)
                     (fields_batch (batches ! i) ! (fieldIndices metric ! i))
               \<and> (\<forall>j < fieldIndices metric ! i.
                     \<not> cmp (fields_batch (hd batches) ! k) (fields_batch (batches ! i) ! j))
               \<and> isNumber (fields_batch (batches ! i) ! (fieldIndices metric ! i)))))
   \<and> sorted_wrt (<) (map (\<lambda>m. fieldIndices m ! 0) (createMetrics cmp batches))
   \<and> (b \<in> set (tl batches) \<and> n < length (fields_batch (hd batches))
        \<and> (\<forall>f \<in> set (fields_batch b). \<not> cmp (fields_batch (hd batches) ! n) f) \<longrightarrow>
      (\<forall>m \<in> set (createMetrics cmp batches). fieldIndices m ! 0 \<noteq> n))"
proof (intro conjI impI)
  assume "metric \<in> set (createMetrics cmp batches)"
  from createMetrics_member [OF this] obtain k where
    k: "k < length (fields_batch (hd batches))" and ne: "batches \<noteq> []"
    and el: "eligible cmp batches (fields_batch (hd batches) ! k)"
    and m: "metric = metricOf cmp batches k (fields_batch (hd batches) ! k)"
    by blast
  let ?field = "fields_batch (hd batches) ! k"
  have "fieldIndices metric ! 0 = k" by (simp add: m metricOf_def new_FieldMetric_def)
  moreover have "length (fieldIndices metric) = length batches"
    using ne by (simp add: m metricOf_def new_FieldMetric_def)
  moreover have "isNumber ?field" "id_field ?field \<notin> {WIDTH, HEIGHT, EFFORT, QUALITY}"
    using el by (simp_all add: eligible_def)
  moreover have "\<forall>i. 0 < i \<and> i < length batches \<longrightarrow>
      fieldIndices metric ! i < length (fields_batch (batches ! i))
      \<and> cmp ?field (fields_batch (batches ! i) ! (fieldIndices metric ! i))
      \<and> (\<forall>j < fieldIndices metric ! i. \<not> cmp ?field (fields_batch (batches ! i) ! j))
      \<and> isNumber (fields_batch (batches ! i) ! (fieldIndices metric ! i))"
  proof (intro allI impI)
    fix i assume i: "0 < i \<and> i < length batches"
    from metricOf_other [OF el, of i k] i
    have c: "comparableIndex cmp ?field (batches ! i) = Some (fieldIndices metric ! i)"
      and nm: "isNumber (fields_batch (batches ! i) ! (fieldIndices metric ! i))"
      by (simp_all add: m)
    from findIndex_Some [OF c [unfolded comparableIndex_def]] nm
    show "fieldIndices metric ! i < length (fields_batch (batches ! i))
      \<and> cmp ?field (fields_batch (batches ! i) ! (fieldIndices metric ! i))
      \<and> (\<forall>j < fieldIndices metric ! i. \<not> cmp ?field (fields_batch (batches ! i) ! j))
      \<and> isNumber (fields_batch (batches ! i) ! (fieldIndices metric ! i))"
      by simp
  qed
  ultimately show "\<exists>k. k < length (fields_batch (hd batches))
         \<and> fieldIndices metric ! 0 = k
         \<and> length (fieldIndices metric) = length batches
         \<and> isNumber (fields_batch (hd batches) ! k)
         \<and> id_field (fields_batch (hd batches) ! k) \<notin> {WIDTH, HEIGHT, EFFORT, QUALITY}
         \<and> (\<forall>i. 0 < i \<and> i < length batches \<longrightarrow>
               fieldIndices metric ! i < length (fields_batch (batches ! i))
               \<and> cmp (fields_batch (hd batches) ! k)
                     (fields_batch (batches ! i) ! (fieldIndices metric ! i))
               \<and> (\<forall>j < fieldIndices metric ! i.
                     \<not> cmp (fields_batch (hd batches) ! k) (fields_batch (batches ! i) ! j))
               \<and> isNumber (fields_batch (batches ! i) ! (fieldIndices metric ! i)))"
    using k by blast
next
  show "sorted_wrt (<) (map (\<lambda>m. fieldIndices m ! 0) (createMetrics cmp batches))"
    by (rule createMetrics_order)
next
  assume a: "b \<in> set (tl batches) \<and> n < length (fields_batch (hd batches))
        \<and> (\<forall>f \<in> set (fields_batch b). \<not> cmp (fields_batch (hd batches) ! n) f)"
  show "\<forall>m \<in> set (createMetrics cmp batches). fieldIndices m ! 0 \<noteq> n"
  proof
    fix m assume "m \<in> set (createMetrics cmp batches)"
    from createMetrics_member [OF this] obtain k where
      el: "eligible cmp batches (fields_batch (hd batches) ! k)"
      and m: "m = metricOf cmp batches k (fields_batch (hd batches) ! k)"
      by blast
    have k: "fieldIndices m ! 0 = k" by (simp add: m metricOf_def new_FieldMetric_def)
    show "fieldIndices m ! 0 \<noteq> n"
    proof
      assume "fieldIndices m ! 0 = n"
      with k el have "eligible cmp batches (fields_batch (hd batches) ! n)" by simp
      with a have "comparableIndex cmp (fields_batch (hd batches) ! n) b \<noteq> None"
        by (auto simp: eligible_def list_all_iff)
      with a show False by (simp add: comparableIndex_def findIndex_None)
    qed
  qed
qed

lemma createMetrics_oneSize_twoSizes:
  "createMetrics areFieldsComparable [oneSize, twoSizes] = [new_FieldMetric [1, 0]]"
  by (simp add: createMetrics_def oneSize_def twoSizes_def areFieldsComparable_def
      sizeField_def widthField_def)

lemma createMetrics_oneSize_widthOnly:
  "createMetrics areFieldsComparable [oneSize, widthOnly] = []"
  by (simp add: createMetrics_def oneSize_def widthOnly_def areFieldsComparable_def
      sizeField_def widthField_def)

text \<open>
  The first batch has a width and an encoded-size column. Against the batch with two
  encoded-size columns the one metric is on encoded size, with the first of the two
  columns; against the batch with a width column only there is no metric.
\<close>

theorem createMetrics_emits_first_comparable_witness:
  "new_FieldMetric [1, 0] \<in> set (createMetrics areFieldsComparable [oneSize, twoSizes])
   \<and> fields_batch (hd [oneSize, twoSizes]) ! 1 = sizeField
   \<and> isNumber sizeField
   \<and> areFieldsComparable sizeField (fields_batch twoSizes ! 0)
   \<and> widthOnly \<in> set (tl [oneSize, widthOnly])
   \<and> \<not> areFieldsComparable sizeField widthField
   \<and> createMetrics areFieldsComparable [oneSize, widthOnly] = []"
proof -
  have emitted:
    "new_FieldMetric [1, 0] \<in> set (createMetrics areFieldsComparable [oneSize, twoSizes])"
    by (simp add: createMetrics_oneSize_twoSizes)
  have field: "fields_batch (hd [oneSize, twoSizes]) ! 1 = sizeField"
    by (simp add: oneSize_def)
  have other: "areFieldsComparable sizeField (fields_batch twoSizes ! 0)"
    by (simp add: twoSizes_def areFieldsComparable_def)
  have width: "\<not> areFieldsComparable sizeField widthField"
    by (simp add: areFieldsComparable_def sizeField_def widthField_def)
  have tail: "widthOnly \<in> set (tl [oneSize, widthOnly])" by simp
  have num: "isNumber sizeField" by (simp add: sizeField_def)
  show ?thesis
    using emitted field other width tail num createMetrics_oneSize_widthOnly
      createMetrics_emits_first_comparable
        [of "new_FieldMetric [1, 0]" areFieldsComparable "[oneSize, twoSizes]" twoSizes 0]
      createMetrics_emits_first_comparable
        [of "new_FieldMetric [1, 0]" areFieldsComparable "[oneSize, widthOnly]" widthOnly 1]
    by blast
qed

text \<open>
  Claim C3 as stated fails: the second batch has two fields comparable with the
  encoded-size field of the first batch, not exactly one, and the metric is emitted.
\<close>

theorem createMetrics_exactly_one_counterexample:
  "createMetrics areFieldsComparable [oneSize, twoSizes] = [new_FieldMetric [1, 0]]
   \<and> fields_batch oneSize ! 1 = sizeField
   \<and> length (filter (areFieldsComparable sizeField) (fields_batch twoSizes)) = 2"
proof -
  have "length (filter (areFieldsComparable sizeField) (fields_batch twoSizes)) = 2"
    by (simp add: twoSizes_def areFieldsComparable_def sizeField_def widthField_def)
  moreover have "fields_batch oneSize ! 1 = sizeField" by (simp add: oneSize_def)
  ultimately show ?thesis using createMetrics_oneSize_twoSizes by blast
qed

subsection \<open>The constructor of BatchSelection\<close>

lemma fold_snoc_map: "fold (\<lambda>x ys. ys @ [f x]) xs acc = acc @ map f xs"
  by (induction xs arbitrary: acc) simp_all

lemma fold_insert_set: "fold (\<lambda>x A. insert x A) xs A = set xs \<union> A"
  by (induction xs arbitrary: A) auto

lemma createFieldFilter_members:
  "rangeStart_filter (createFieldFilter field) = rangeStart field"
  "rangeEnd_filter (createFieldFilter field) = rangeEnd field"
  "uniqueValues (createFieldFilter field) =
     (if isNumber field then {} else set (uniqueValuesArray field))"
  by (simp_all add: createFieldFilter_def new_FieldFilter_def fold_insert_set Let_def)

lemma new_BatchSelection_eq:
  "new_BatchSelection enableDefaultFilters selectedBatch =
     (\<lparr>batch = selectedBatch,
       fieldFilters =
         enableDefaultFilters selectedBatch (map createFieldFilter (fields_batch selectedBatch)),
       filteredRowIndices = [], matchedDataPoints = [], stats = []\<rparr>,
      [EnableDefaultFilters, Listen FILTER_CHANGED])"
  by (simp add: new_BatchSelection_def fold_snoc_map)

text \<open>
  Claim C8. The constructor of \<open>BatchSelection\<close> creates one filter for each field of
  the batch, in the order of the fields: its bounds are the range of the field, and its
  set of values is the set of the unique values of a categorical field and empty for a
  numeric field. It then applies \<open>enableDefaultFilters\<close> to these filters, once, and
  what that leaves is \<open>fieldFilters\<close>; as \<open>enableDefaultFilters\<close> keeps the number
  of filters, \<open>fieldFilters\<close> has as many filters as the batch has fields. The
  listener for changed filters does not apply \<open>enableDefaultFilters\<close>.
\<close>

theorem BatchSelection_constructor_filters:
  assumes "\<And>filters. length (enableDefaultFilters selectedBatch filters) = length filters"
  shows "\<exists>this calls created.
           new_BatchSelection enableDefaultFilters selectedBatch = (this, calls)
         \<and> batch this = selectedBatch
         \<and> length created = length (fields_batch selectedBatch)
         \<and> (\<forall>i < length (fields_batch selectedBatch).
               rangeStart_filter (created ! i) = rangeStart (fields_batch selectedBatch ! i)
             \<and> rangeEnd_filter (created ! i) = rangeEnd (fields_batch selectedBatch ! i)
             \<and> uniqueValues (created ! i) =
                 (if isNumber (fields_batch selectedBatch ! i) then {}
                  else set (uniqueValuesArray (fields_batch selectedBatch ! i))))
         \<and> fieldFilters this = enableDefaultFilters selectedBatch created
         \<and> length (fieldFilters this) = length (fields_batch selectedBatch)
         \<and> length (filter (\<lambda>c. c = EnableDefaultFilters) calls) = 1
         \<and> filter (\<lambda>c. c = EnableDefaultFilters)
              (snd (onFilterChanged getFilteredRowIndices this batchIndex)) = []"
proof -
  let ?created = "map createFieldFilter (fields_batch selectedBatch)"
  let ?sel = "\<lparr>batch = selectedBatch,
       fieldFilters = enableDefaultFilters selectedBatch ?created,
       filteredRowIndices = [], matchedDataPoints = [], stats = []\<rparr>"
  let ?calls = "[EnableDefaultFilters, Listen FILTER_CHANGED]"
  have "new_BatchSelection enableDefaultFilters selectedBatch = (?sel, ?calls)"
    by (rule new_BatchSelection_eq)
  moreover have "batch ?sel = selectedBatch" by simp
  moreover have "length ?created = length (fields_batch selectedBatch)" by simp
  moreover have "\<forall>i < length (fields_batch selectedBatch).
               rangeStart_filter (?created ! i) = rangeStart (fields_batch selectedBatch ! i)
             \<and> rangeEnd_filter (?created ! i) = rangeEnd (fields_batch selectedBatch ! i)
             \<and> uniqueValues (?created ! i) =
                 (if isNumber (fields_batch selectedBatch ! i) then {}
                  else set (uniqueValuesArray (fields_batch selectedBatch ! i)))"
    by (simp add: createFieldFilter_members)
  moreover have "fieldFilters ?sel = enableDefaultFilters selectedBatch ?created" by simp
  moreover have "length (fieldFilters ?sel) = length (fields_batch selectedBatch)"
    by (simp add: assms)
  moreover have "length (filter (\<lambda>c. c = EnableDefaultFilters) ?calls) = 1" by simp
  moreover have "filter (\<lambda>c. c = EnableDefaultFilters)
      (snd (onFilterChanged getFilteredRowIndices ?sel batchIndex)) = []"
    by (simp add: onFilterChanged_def)
  ultimately show ?thesis by blast
qed

text \<open>
  On the batch with a codec and an encoded-size column the two filters are created with
  the two codecs and with the range 0 to 5, and the default step then narrows the range.
\<close>

theorem BatchSelection_constructor_filters_witness:
  "length (narrowToStart codecSizes [createFieldFilter codecField]) =
     length [createFieldFilter codecField]
   \<and> (\<exists>this calls.
         new_BatchSelection narrowToStart codecSizes = (this, calls)
       \<and> length (fieldFilters this) = 2
       \<and> uniqueValues (fieldFilters this ! 0) = {''avif'', ''webp''}
       \<and> rangeStart_filter (fieldFilters this ! 1) = Fin 0
       \<and> rangeEnd_filter (fieldFilters this ! 1) = Fin 0
       \<and> rangeEnd_filter (createFieldFilter sizeField) = Fin 5
       \<and> calls = [EnableDefaultFilters, Listen FILTER_CHANGED])"
proof -
  have keeps: "\<And>filters. length (narrowToStart codecSizes filters) = length filters"
    by (simp add: narrowToStart_def)
  have "new_BatchSelection narrowToStart codecSizes =
      (\<lparr>batch = codecSizes,
        fieldFilters =
          narrowToStart codecSizes [createFieldFilter codecField, createFieldFilter sizeField],
        filteredRowIndices = [], matchedDataPoints = [], stats = []\<rparr>,
       [EnableDefaultFilters, Listen FILTER_CHANGED])"
    by (simp add: new_BatchSelection_eq codecSizes_def)
  moreover have "uniqueValues (createFieldFilter codecField) = {''avif'', ''webp''}"
    by (simp add: createFieldFilter_members codecField_def)
  moreover have "rangeStart_filter (createFieldFilter sizeField) = Fin 0"
    "rangeEnd_filter (createFieldFilter sizeField) = Fin 5"
    by (simp_all add: createFieldFilter_members sizeField_def)
  ultimately show ?thesis
    using keeps BatchSelection_constructor_filters [of narrowToStart codecSizes, OF keeps]
    by (simp add: narrowToStart_def)
qed

subsection \<open>The listener of MatchesUi\<close>

text \<open>
  Claim C7. A request for the matches of the batch whose index is the index of the
  reference selection leaves the component as it is: the displayed selection, the
  display style and the number of requested updates are unchanged. A request that does
  change the displayed selection is therefore for another index than the reference's.
\<close>

theorem onMatchesInfoRequest_reference_ignored:
  "(batchIndex = referenceBatchSelectionIndex (state this) \<longrightarrow>
      onMatchesInfoRequest this batchIndex = this
      \<and> batchSelection (onMatchesInfoRequest this batchIndex) = batchSelection this
      \<and> display (onMatchesInfoRequest this batchIndex) = display this
      \<and> updateRequests (onMatchesInfoRequest this batchIndex) = updateRequests this)
   \<and> (onMatchesInfoRequest this batchIndex \<noteq> this \<longrightarrow>
        batchIndex \<noteq> referenceBatchSelectionIndex (state this))"
  by (simp add: onMatchesInfoRequest_def)

text \<open>
  On the closed panel the request for the reference, at index 1, changes nothing, and
  the request for index 2 opens the panel on the third selection.
\<close>

theorem onMatchesInfoRequest_reference_ignored_witness:
  "(1::nat) = referenceBatchSelectionIndex (state closedPanel)
   \<and> onMatchesInfoRequest closedPanel 1 = closedPanel
   \<and> batchSelection (onMatchesInfoRequest closedPanel 1) = None
   \<and> onMatchesInfoRequest closedPanel 2 \<noteq> closedPanel
   \<and> batchSelection (onMatchesInfoRequest closedPanel 2) = Some ''c''
   \<and> (2::nat) \<noteq> referenceBatchSelectionIndex (state closedPanel)"
  using onMatchesInfoRequest_reference_ignored [of 1 closedPanel]
    onMatchesInfoRequest_reference_ignored [of 2 closedPanel]
  by (simp add: onMatchesInfoRequest_def closedPanel_def)

end
